theory Spec2Isabelle
  imports Main "HOL-Library.AList"
begin

section \<open>Values, the process and the filesystem\<close>

text \<open>
  Documents and payloads are JSON-like values (\<open>LLMDoc = any\<close> in the source).  A property
  that is absent reads as \<open>undefined\<close>: objects are maps and a lookup gives \<open>None\<close>.
  Strings are ASCII character lists; numbers are integers.  \<open>JFun\<close> is a built-in function
  by its name, which a lookup of an inherited member yields.
\<close>

datatype json =
    JNull
  | JBool bool
  | JNum int
  | JStr string
  | JArr "json list"
  | JObj "string \<Rightarrow> json option"
  | JFun string

type_synonym obj = "string \<Rightarrow> json option"

text \<open>JavaScript truthiness of a property read (\<open>None\<close> is \<open>undefined\<close>).\<close>

fun truthy :: "json option \<Rightarrow> bool" where
  "truthy None = False"
| "truthy (Some JNull) = False"
| "truthy (Some (JBool b)) = b"
| "truthy (Some (JNum n)) = (n \<noteq> 0)"
| "truthy (Some (JStr s)) = (s \<noteq> [])"
| "truthy (Some (JArr xs)) = True"
| "truthy (Some (JObj m)) = True"
| "truthy (Some (JFun f)) = True"

text \<open>\<open>a || b\<close> on property reads.\<close>

definition js_or :: "json option \<Rightarrow> json option \<Rightarrow> json option" where
  "js_or a b = (if truthy a then a else b)"

text \<open>\<open>d && d.type === 'llm'\<close> and \<open>d?.type === 'llm'\<close>: both hold exactly for an object whose
  \<open>type\<close> is the string \<open>llm\<close>.\<close>

fun is_llm :: "json \<Rightarrow> bool" where
  "is_llm (JObj m) = (m ''type'' = Some (JStr ''llm''))"
| "is_llm _ = False"

datatype error =
    Unauthorized
  | NoLlmDoc
  | PersistKeyFailed
  | FsError string
  | YamlError
  | TypeError

datatype fs_call =
    Mkdir string
  | WriteFile string string
  | Unlink string

text \<open>
  The process: its environment variables, home and working directory, and the YAML library
  (\<open>yaml.loadAll\<close> fails with \<open>None\<close>, \<open>yaml.dump\<close> is total on JSON values).
\<close>

record proc =
  penv :: "string \<Rightarrow> string option"
  homedir :: string
  cwd :: string
  loadAll :: "string \<Rightarrow> json list option"
  dump :: "json \<Rightarrow> string"

text \<open>
  The filesystem: the files with their content, the files that exist but cannot be read, the
  paths on which \<open>mkdir\<close>, \<open>writeFile\<close> and \<open>unlink\<close> fail, and the journal of every
  mutating call that was attempted, in order.
\<close>

record world =
  files :: "string \<Rightarrow> string option"
  unreadable :: "string set"
  faulty :: "string set"
  journal :: "fs_call list"

text \<open>\<open>path.join\<close>, without normalisation: a path names a file by its text.\<close>

definition path_join :: "string \<Rightarrow> string \<Rightarrow> string" where
  "path_join a b = a @ ''/'' @ b"

definition readFile :: "string \<Rightarrow> world \<Rightarrow> error + string" where
  "readFile p w =
     (case files w p of
        None \<Rightarrow> Inl (FsError p)
      | Some c \<Rightarrow> if p \<in> unreadable w then Inl (FsError p) else Inr c)"

definition access :: "string \<Rightarrow> world \<Rightarrow> bool" where
  "access p w = (files w p \<noteq> None)"

definition mkdir :: "string \<Rightarrow> world \<Rightarrow> (error + unit) \<times> world" where
  "mkdir p w =
     (let w' = w\<lparr>journal := journal w @ [Mkdir p]\<rparr>
      in if p \<in> faulty w then (Inl (FsError p), w') else (Inr (), w'))"

definition writeFile :: "string \<Rightarrow> string \<Rightarrow> world \<Rightarrow> (error + unit) \<times> world" where
  "writeFile p c w =
     (let w' = w\<lparr>journal := journal w @ [WriteFile p c]\<rparr>
      in if p \<in> faulty w then (Inl (FsError p), w')
         else (Inr (), w'\<lparr>files := (files w)(p \<mapsto> c)\<rparr>))"

definition unlink :: "string \<Rightarrow> world \<Rightarrow> (error + unit) \<times> world" where
  "unlink p w =
     (let w' = w\<lparr>journal := journal w @ [Unlink p]\<rparr>
      in if p \<in> faulty w \<or> files w p = None then (Inl (FsError p), w')
         else (Inr (), w'\<lparr>files := (files w)(p := None)\<rparr>))"

section \<open>ConfigService\<close>

definition homedirDir :: "proc \<Rightarrow> string" where
  "homedirDir pr = path_join (homedir pr) ''.wrenai''"

definition homedirConfig :: "proc \<Rightarrow> string" where
  "homedirConfig pr = path_join (homedirDir pr) ''config.yaml''"

text \<open>\<open>process.env.PROJECT_CONFIG_PATH\<close>, with the empty string falsy as in JavaScript.\<close>

definition PROJECT_CONFIG_PATH :: "proc \<Rightarrow> string option" where
  "PROJECT_CONFIG_PATH pr =
     (case penv pr ''PROJECT_CONFIG_PATH'' of
        None \<Rightarrow> None
      | Some s \<Rightarrow> if s = [] then None else Some s)"

definition DEFAULT_CONFIG_PATH :: "proc \<Rightarrow> string" where
  "DEFAULT_CONFIG_PATH pr =
     (case PROJECT_CONFIG_PATH pr of
        Some s \<Rightarrow> s
      | None \<Rightarrow> path_join (cwd pr) ''config.yaml'')"

definition parentConfig :: "proc \<Rightarrow> string" where
  "parentConfig pr = path_join (path_join (cwd pr) ''..'') ''config.yaml''"

text \<open>Candidate order: explicit env, homedir, project, repo-root; \<open>filter(Boolean)\<close> drops the
  unset override and empty strings.\<close>

definition candidates :: "proc \<Rightarrow> string list" where
  "candidates pr =
     filter (\<lambda>s. s \<noteq> [])
       ((case penv pr ''PROJECT_CONFIG_PATH'' of None \<Rightarrow> [] | Some s \<Rightarrow> [s])
        @ [homedirConfig pr, DEFAULT_CONFIG_PATH pr, parentConfig pr])"

text \<open>The migration block of \<open>readConfig\<close>: every failure inside it is swallowed, so it only
  returns a filesystem.\<close>

definition migrate :: "proc \<Rightarrow> string \<Rightarrow> world \<Rightarrow> world" where
  "migrate pr raw w =
     (if access (homedirConfig pr) w then w
      else case mkdir (homedirDir pr) w of
             (Inl e, w1) \<Rightarrow> w1
           | (Inr u, w1) \<Rightarrow>
               (case writeFile (homedirConfig pr) raw w1 of
                  (Inl e, w2) \<Rightarrow> w2
                | (Inr u, w2) \<Rightarrow> snd (unlink (DEFAULT_CONFIG_PATH pr) w2)))"

text \<open>The loop over the candidates.  \<open>Inl lastErr\<close> means that no candidate was read and
  parsed.\<close>

fun try_candidates ::
  "proc \<Rightarrow> string list \<Rightarrow> error option \<Rightarrow> world \<Rightarrow> (error option + json list) \<times> world" where
  "try_candidates pr [] lastErr w = (Inl lastErr, w)"
| "try_candidates pr (p # ps) lastErr w =
     (case readFile p w of
        Inl e \<Rightarrow> try_candidates pr ps (Some e) w
      | Inr raw \<Rightarrow>
          (let w1 = (if p = DEFAULT_CONFIG_PATH pr then migrate pr raw w else w)
           in case loadAll pr raw of
                Some docs \<Rightarrow> (Inr docs, w1)
              | None \<Rightarrow> try_candidates pr ps (Some YamlError) w1))"

definition defaultYaml :: string where
  "defaultYaml = ''---'' @ [CHR 0x0A] @ ''- type: llm'' @ [CHR 0x0A]
     @ ''  provider: openai'' @ [CHR 0x0A]
     @ ''  api_base: https://api.openai.com/v1'' @ [CHR 0x0A]
     @ ''  models:'' @ [CHR 0x0A]
     @ ''    - model: gpt-4o-mini'' @ [CHR 0x0A]
     @ ''  active_model: gpt-4o-mini'' @ [CHR 0x0A]"

text \<open>\<open>throw lastErr || e || ...\<close>\<close>

definition rethrow :: "error option \<Rightarrow> error \<Rightarrow> error" where
  "rethrow lastErr e = (case lastErr of Some l \<Rightarrow> l | None \<Rightarrow> e)"

definition create_default :: "proc \<Rightarrow> error option \<Rightarrow> world \<Rightarrow> (error + json list) \<times> world" where
  "create_default pr lastErr w =
     (case mkdir (homedirDir pr) w of
        (Inl e, w1) \<Rightarrow> (Inl (rethrow lastErr e), w1)
      | (Inr u, w1) \<Rightarrow>
          (case writeFile (homedirConfig pr) defaultYaml w1 of
             (Inl e, w2) \<Rightarrow> (Inl (rethrow lastErr e), w2)
           | (Inr u, w2) \<Rightarrow>
               (case loadAll pr defaultYaml of
                  None \<Rightarrow> (Inl (rethrow lastErr YamlError), w2)
                | Some docs \<Rightarrow> (Inr docs, w2))))"

definition readConfig :: "proc \<Rightarrow> world \<Rightarrow> (error + json list) \<times> world" where
  "readConfig pr w =
     (case try_candidates pr (candidates pr) None w of
        (Inr docs, w1) \<Rightarrow> (Inr docs, w1)
      | (Inl lastErr, w1) \<Rightarrow> create_default pr lastErr w1)"

text \<open>\<open>docs.map(d => yaml.dump(d)).join('---\n')\<close>\<close>

fun join :: "string \<Rightarrow> string list \<Rightarrow> string" where
  "join sep [] = []"
| "join sep [x] = x"
| "join sep (x # y # ys) = x @ sep @ join sep (y # ys)"

definition serialize :: "proc \<Rightarrow> json list \<Rightarrow> string" where
  "serialize pr docs = join (''---'' @ [CHR 0x0A]) (map (dump pr) docs)"

definition writeConfig :: "proc \<Rightarrow> json list \<Rightarrow> world \<Rightarrow> (error + json list) \<times> world" where
  "writeConfig pr docs w =
     (if \<not> list_ex is_llm docs then (Inl NoLlmDoc, w)
      else let w1 = snd (mkdir (homedirDir pr) w)
           in case writeFile (homedirConfig pr) (serialize pr docs) w1 of
                (Inl e, w2) \<Rightarrow> (Inl e, w2)
              | (Inr u, w2) \<Rightarrow> (Inr docs, w2))"

section \<open>Strings and coercions\<close>

text \<open>\<open>toLowerCase\<close> on ASCII letters.\<close>

definition lower_char :: "char \<Rightarrow> char" where
  "lower_char c =
     (case map_of (zip ''ABCDEFGHIJKLMNOPQRSTUVWXYZ'' ''abcdefghijklmnopqrstuvwxyz'') c of
        Some d \<Rightarrow> d
      | None \<Rightarrow> c)"

definition toLowerCase :: "string \<Rightarrow> string" where
  "toLowerCase s = map lower_char s"

text \<open>\<open>s.includes(sub)\<close>: \<open>sub\<close> occurs in \<open>s\<close> as a contiguous substring.\<close>

primrec str_includes :: "string \<Rightarrow> string \<Rightarrow> bool" where
  "str_includes [] sub = (sub = [])"
| "str_includes (c # cs) sub = (take (length sub) (c # cs) = sub \<or> str_includes cs sub)"

definition endsWith :: "string \<Rightarrow> string \<Rightarrow> bool" where
  "endsWith s suf = (length suf \<le> length s \<and> drop (length s - length suf) s = suf)"

definition digit :: "nat \<Rightarrow> char" where
  "digit d = ''0123456789'' ! (d mod 10)"

function show_nat :: "nat \<Rightarrow> string" where
  "show_nat n = (if n < 10 then [digit n] else show_nat (n div 10) @ [digit n])"
  by pat_completeness auto
termination
  by (relation "measure id") auto

definition show_int :: "int \<Rightarrow> string" where
  "show_int i = (if i < 0 then CHR ''-'' # show_nat (nat (- i)) else show_nat (nat i))"

text \<open>String coercion of a value, as \<open>toString()\<close> and template literals do it.\<close>

fun js_to_string :: "json \<Rightarrow> string" where
  "js_to_string JNull = ''null''"
| "js_to_string (JBool b) = (if b then ''true'' else ''false'')"
| "js_to_string (JNum n) = show_int n"
| "js_to_string (JStr s) = s"
| "js_to_string (JArr xs) = join '','' (map (\<lambda>x. if x = JNull then [] else js_to_string x) xs)"
| "js_to_string (JObj m) = ''[object Object]''"
| "js_to_string (JFun f) = ''function '' @ f @ ''() { [native code] }''"

text \<open>White space as \<open>String.prototype.trim\<close> removes it (ASCII).\<close>

definition is_space :: "char \<Rightarrow> bool" where
  "is_space c = (c \<in> set [CHR 0x20, CHR 0x09, CHR 0x0A, CHR 0x0B, CHR 0x0C, CHR 0x0D])"

definition trim :: "string \<Rightarrow> string" where
  "trim s = rev (dropWhile is_space (rev (dropWhile is_space s)))"

section \<open>The secrets file\<close>

text \<open>\<open>content.split(/\r?\n/)\<close>: the text is cut at every line feed, and a carriage return just
  before the line feed belongs to the separator.  The first argument is the current piece,
  reversed.\<close>

fun split_lines :: "string \<Rightarrow> string \<Rightarrow> string list" where
  "split_lines acc [] = [rev acc]"
| "split_lines acc (c # cs) =
     (if c = CHR 0x0A
      then rev (case acc of [] \<Rightarrow> [] | a # r \<Rightarrow> if a = CHR 0x0D then r else a # r)
             # split_lines [] cs
      else split_lines (c # acc) cs)"

text \<open>\<open>line.indexOf('=')\<close>, \<open>None\<close> for \<open>-1\<close>.\<close>

fun indexOf :: "string \<Rightarrow> char \<Rightarrow> nat option" where
  "indexOf [] c = None"
| "indexOf (x # xs) c = (if x = c then Some 0 else map_option Suc (indexOf xs c))"

text \<open>
  \<open>kv\<close> is a plain object used as a dictionary.  Assigning to the key \<open>__proto__\<close> a string is
  ignored by the prototype setter and creates no property; every other assignment creates the
  property at the end or overwrites it in place.
\<close>

definition kv_set :: "string \<Rightarrow> string \<Rightarrow> (string \<times> string) list \<Rightarrow> (string \<times> string) list" where
  "kv_set k v kv = (if k = ''__proto__'' then kv else AList.update k v kv)"

definition parse_line :: "string \<Rightarrow> (string \<times> string) list \<Rightarrow> (string \<times> string) list" where
  "parse_line line kv =
     (if take 1 (trim line) = ''#'' then kv
      else case indexOf line CHR ''='' of
             None \<Rightarrow> kv
           | Some idx \<Rightarrow>
               if 0 < idx then kv_set (trim (take idx line)) (trim (drop (idx + 1) line)) kv
               else kv)"

definition parse_env :: "string \<Rightarrow> (string \<times> string) list" where
  "parse_env content = fold parse_line (filter (\<lambda>l. l \<noteq> []) (split_lines [] content)) []"

text \<open>
  \<open>Object.entries\<close> lists the keys that are array indices (canonical decimal numerals below
  \<open>2^32 - 1\<close>) first, in ascending numeric order, then the other keys in insertion order.
\<close>

definition digit_val :: "char \<Rightarrow> nat option" where
  "digit_val c = map_of (zip ''0123456789'' [0 ..< 10]) c"

definition index_val :: "string \<Rightarrow> nat" where
  "index_val s = foldl (\<lambda>a c. 10 * a + (case digit_val c of Some d \<Rightarrow> d | None \<Rightarrow> 0)) 0 s"

definition is_array_index :: "string \<Rightarrow> bool" where
  "is_array_index s =
     (s \<noteq> [] \<and> list_all (\<lambda>c. digit_val c \<noteq> None) s
      \<and> (length s = 1 \<or> hd s \<noteq> CHR ''0'') \<and> index_val s < 4294967295)"

definition entries :: "(string \<times> string) list \<Rightarrow> (string \<times> string) list" where
  "entries kv =
     sort_key (\<lambda>e. index_val (fst e)) (filter (\<lambda>e. is_array_index (fst e)) kv)
     @ filter (\<lambda>e. \<not> is_array_index (fst e)) kv"

definition env_lines :: "(string \<times> string) list \<Rightarrow> string list" where
  "env_lines kv = map (\<lambda>e. fst e @ ''='' @ snd e) (entries kv)"

definition render_env :: "(string \<times> string) list \<Rightarrow> string" where
  "render_env kv = join [CHR 0x0A] (env_lines kv)"

definition envPath :: "proc \<Rightarrow> string" where
  "envPath pr = path_join (path_join (homedir pr) ''.wrenai'') ''.env''"

text \<open>The content that \<open>writeEnvVar\<close> reads: an absent or unreadable file is empty.\<close>

definition env_content :: "proc \<Rightarrow> world \<Rightarrow> string" where
  "env_content pr w = (case readFile (envPath pr) w of Inl e \<Rightarrow> [] | Inr c \<Rightarrow> c)"

definition writeEnvVar :: "proc \<Rightarrow> string \<Rightarrow> string \<Rightarrow> world \<Rightarrow> (error + unit) \<times> world" where
  "writeEnvVar pr varName val w =
     (let w1 = snd (mkdir (path_join (homedir pr) ''.wrenai'') w);
          kv = parse_env (env_content pr w1)
      in writeFile (envPath pr) (render_env (kv_set varName val kv)) w1)"

section \<open>ConfigResolver: updating the configuration\<close>

text \<open>\<open>ctx.isAdmin || (ctx.req && ctx.req.__isAdmin) || false\<close>\<close>

record ctx =
  ctx_isAdmin :: bool
  ctx_req :: "bool option"

definition isAdmin :: "ctx \<Rightarrow> bool" where
  "isAdmin c = (ctx_isAdmin c \<or> (case ctx_req c of None \<Rightarrow> False | Some a \<Rightarrow> a))"

text \<open>\<open>v && v.includes(sub)\<close>: a substring test on a string, a membership test on an array,
  a type error on any other truthy value.\<close>

definition value_includes :: "json option \<Rightarrow> string \<Rightarrow> error + bool" where
  "value_includes v sub =
     (if \<not> truthy v then Inr False
      else case v of
             Some (JStr s) \<Rightarrow> Inr (str_includes s sub)
           | Some (JArr xs) \<Rightarrow> Inr (JStr sub \<in> set xs)
           | _ \<Rightarrow> Inl TypeError)"

text \<open>\<open>(doc.provider || '').toString().toLowerCase()\<close>\<close>

definition provider_of :: "obj \<Rightarrow> string" where
  "provider_of doc =
     toLowerCase (if truthy (doc ''provider'')
                  then (case doc ''provider'' of Some v \<Rightarrow> js_to_string v | None \<Rightarrow> [])
                  else [])"

definition chooseEnvVarName :: "obj \<Rightarrow> error + string" where
  "chooseEnvVarName doc =
     (let provider = provider_of doc
      in if str_includes provider ''azure'' \<or> truthy (doc ''api_version'')
         then Inr ''AZURE_OPENAI_API_KEY''
         else case value_includes (doc ''api_base'') ''.openai.azure.com'' of
                Inl e \<Rightarrow> Inl e
              | Inr True \<Rightarrow> Inr ''AZURE_OPENAI_API_KEY''
              | Inr False \<Rightarrow>
                  if str_includes provider ''deepseek'' then Inr ''DEEPSEEK_API_KEY''
                  else if str_includes provider ''openrouter'' then Inr ''OPENROUTER_API_KEY''
                  else if str_includes provider ''ollama'' then Inr ''OLLAMA_API_KEY''
                  else if str_includes provider ''google'' \<or> str_includes provider ''vertex''
                  then Inr ''GOOGLE_API_KEY''
                  else Inr ''OPENAI_API_KEY'')"

text \<open>The body of \<open>docs.map\<close> in \<open>updateLLMConfig\<close>.\<close>

fun merge_doc :: "obj \<Rightarrow> json \<Rightarrow> json" where
  "merge_doc incoming (JObj d) =
     (if is_llm (JObj d)
      then (let merged = d ++ incoming
            in JObj (if incoming ''active_model'' = None \<and> truthy (d ''active_model'')
                     then merged(''active_model'' := d ''active_model'')
                     else merged))
      else JObj d)"
| "merge_doc incoming d = d"

definition new_docs :: "obj \<Rightarrow> json list \<Rightarrow> json list" where
  "new_docs incoming docs =
     (let newDocs = map (merge_doc incoming) docs
      in if list_ex is_llm docs then newDocs else newDocs @ [JObj incoming])"

text \<open>Lines 61 to 77: read, merge, write, return the sanitized update.\<close>

definition merge_and_write :: "proc \<Rightarrow> obj \<Rightarrow> world \<Rightarrow> (error + obj) \<times> world" where
  "merge_and_write pr incoming w =
     (case readConfig pr w of
        (Inl e, w1) \<Rightarrow> (Inl e, w1)
      | (Inr docs, w1) \<Rightarrow>
          (case writeConfig pr (new_docs incoming docs) w1 of
             (Inl e, w2) \<Rightarrow> (Inl e, w2)
           | (Inr written, w2) \<Rightarrow> (Inr incoming, w2)))"

text \<open>\<open>const keyValue = incoming.api_key || incoming.apiKey\<close>\<close>

definition keyValue :: "obj \<Rightarrow> json option" where
  "keyValue incoming = js_or (incoming ''api_key'') (incoming ''apiKey'')"

definition strip_keys :: "obj \<Rightarrow> obj" where
  "strip_keys incoming = incoming(''api_key'' := None, ''apiKey'' := None)"

text \<open>Lines 34 to 60: the update as it reaches the merge, and the secrets file written on
  the way.  An error aborts the whole operation.\<close>

definition sanitize :: "proc \<Rightarrow> obj \<Rightarrow> world \<Rightarrow> (error + obj) \<times> world" where
  "sanitize pr data w =
     (let incoming = data;
          wantsPersist = (incoming ''persistKey'' \<noteq> Some (JBool False))
      in if \<not> wantsPersist
         then (Inr ((strip_keys incoming)(''api_key_env'' := None)), w)
         else if truthy (keyValue incoming)
         then (case chooseEnvVarName incoming of
                 Inl e \<Rightarrow> (Inl e, w)
               | Inr envVar \<Rightarrow>
                   (case writeEnvVar pr envVar
                           (case keyValue incoming of Some v \<Rightarrow> js_to_string v | None \<Rightarrow> [])
                           w of
                      (Inl e, w1) \<Rightarrow> (Inl PersistKeyFailed, w1)
                    | (Inr u, w1) \<Rightarrow>
                        (Inr (strip_keys (incoming(''api_key_env'' \<mapsto> JStr envVar))), w1)))
         else (Inr incoming, w))"

definition updateLLMConfig :: "proc \<Rightarrow> ctx \<Rightarrow> obj \<Rightarrow> world \<Rightarrow> (error + obj) \<times> world" where
  "updateLLMConfig pr c data w =
     (if \<not> isAdmin c then (Inl Unauthorized, w)
      else case sanitize pr data w of
             (Inl e, w1) \<Rightarrow> (Inl e, w1)
           | (Inr incoming, w1) \<Rightarrow> merge_and_write pr incoming w1)"

section \<open>Example inputs\<close>

text \<open>
  A process whose YAML library knows three texts, and an administrator's context.  The default
  text is a YAML sequence, so it loads as one document that is an array holding the entry.
\<close>

definition llm_m1 :: obj where
  "llm_m1 = [''type'' \<mapsto> JStr ''llm'', ''provider'' \<mapsto> JStr ''openai'',
             ''active_model'' \<mapsto> JStr ''m1'', ''api_key_env'' \<mapsto> JStr ''OPENAI_API_KEY'']"

definition llm_legacy :: obj where
  "llm_legacy = [''type'' \<mapsto> JStr ''llm'', ''api_key'' \<mapsto> JStr ''sk-old'']"

definition default_doc :: obj where
  "default_doc = [''type'' \<mapsto> JStr ''llm'', ''provider'' \<mapsto> JStr ''openai'',
                  ''api_base'' \<mapsto> JStr ''https://api.openai.com/v1'',
                  ''models'' \<mapsto> JArr [JObj [''model'' \<mapsto> JStr ''gpt-4o-mini'']],
                  ''active_model'' \<mapsto> JStr ''gpt-4o-mini'']"

text \<open>A stand-in for \<open>yaml.dump\<close> that prints the listed fields of an object.\<close>

definition toy_dump :: "json \<Rightarrow> string" where
  "toy_dump d =
     (case d of
        JObj m \<Rightarrow>
          concat (map (\<lambda>k. case m k of None \<Rightarrow> [] | Some v \<Rightarrow> k @ '': '' @ js_to_string v @ ''; '')
                    [''type'', ''provider'', ''active_model'', ''api_key'', ''apiKey'',
                     ''api_key_env'', ''persistKey''])
      | _ \<Rightarrow> js_to_string d)"

definition proc0 :: proc where
  "proc0 = \<lparr> penv = Map.empty, homedir = ''/home/u'', cwd = ''/srv/app'',
             loadAll = (\<lambda>s. if s = ''M1'' then Some [JObj llm_m1]
                            else if s = ''LEGACY'' then Some [JObj llm_legacy]
                            else if s = defaultYaml then Some [JArr [JObj default_doc]]
                            else None),
             dump = toy_dump \<rparr>"

definition admin :: ctx where
  "admin = \<lparr> ctx_isAdmin = True, ctx_req = None \<rparr>"

definition world_of :: "(string \<Rightarrow> string option) \<Rightarrow> world" where
  "world_of fs = \<lparr> files = fs, unreadable = {}, faulty = {}, journal = [] \<rparr>"

definition upd_provider :: obj where
  "upd_provider = [''provider'' \<mapsto> JStr ''deepseek'']"

definition world_m1 :: world where
  "world_m1 = world_of [''/home/u/.wrenai/config.yaml'' \<mapsto> ''M1'']"

definition world_legacy :: world where
  "world_legacy = world_of [''/home/u/.wrenai/config.yaml'' \<mapsto> ''LEGACY'']"

definition upd_nopersist :: obj where
  "upd_nopersist = [''persistKey'' \<mapsto> JBool False, ''api_key'' \<mapsto> JStr ''sk-new'',
                    ''api_key_env'' \<mapsto> JStr ''MY_KEY'']"


section \<open>Observing the filesystem calls of an operation\<close>

definition new_calls :: "world \<Rightarrow> world \<Rightarrow> fs_call list" where
  "new_calls w w' = drop (length (journal w)) (journal w')"

fun is_write_to :: "string \<Rightarrow> fs_call \<Rightarrow> bool" where
  "is_write_to p (WriteFile q c) = (q = p)"
| "is_write_to p _ = False"

definition writes_to :: "string \<Rightarrow> fs_call list \<Rightarrow> bool" where
  "writes_to p calls = list_ex (is_write_to p) calls"

text \<open>The calls that \<open>ConfigService\<close> can make.\<close>

fun config_call :: "proc \<Rightarrow> fs_call \<Rightarrow> bool" where
  "config_call pr (Mkdir p) = (p = homedirDir pr)"
| "config_call pr (WriteFile p c) = (p = homedirConfig pr)"
| "config_call pr (Unlink p) = (p = DEFAULT_CONFIG_PATH pr)"

text \<open>The journal grows by calls of \<open>ConfigService\<close> only.\<close>

definition grows :: "proc \<Rightarrow> world \<Rightarrow> world \<Rightarrow> bool" where
  "grows pr w w' = (\<exists>xs. journal w' = journal w @ xs \<and> list_all (config_call pr) xs)"

text \<open>The field \<open>k\<close> of a document, \<open>None\<close> when the document is not an object or lacks it.\<close>

fun field :: "string \<Rightarrow> json \<Rightarrow> json option" where
  "field k (JObj m) = m k"
| "field k _ = None"






text \<open>A process started with \<open>PROJECT_CONFIG_PATH=/etc/wren.yaml\<close>, and a filesystem whose only
  configuration file is that one.\<close>

definition proc_override :: proc where
  "proc_override = proc0\<lparr> penv := [''PROJECT_CONFIG_PATH'' \<mapsto> ''/etc/wren.yaml''] \<rparr>"

definition world_override :: world where
  "world_override = world_of [''/etc/wren.yaml'' \<mapsto> ''M1'']"

definition world_project :: world where
  "world_project = world_of [''/srv/app/config.yaml'' \<mapsto> ''M1'']"

text \<open>The calls of a migration that is attempted on the filesystem \<open>w\<close>: each step runs only
  when the one before it succeeded.\<close>

definition migration_calls :: "proc \<Rightarrow> string \<Rightarrow> world \<Rightarrow> fs_call list" where
  "migration_calls pr raw w =
     Mkdir (homedirDir pr)
     # (if homedirDir pr \<in> faulty w then []
        else WriteFile (homedirConfig pr) raw
             # (if homedirConfig pr \<in> faulty w then [] else [Unlink (DEFAULT_CONFIG_PATH pr)]))"

section \<open>ConfigResolver: the live switch\<close>

text \<open>The uniform result \<open>{ ok, status?, data?, error? }\<close>.\<close>

record result =
  ok :: bool
  status :: "int option"
  payload :: "json option"
  error_msg :: "string option"

definition failed :: "string \<Rightarrow> result" where
  "failed msg = \<lparr> ok = False, status = None, payload = None, error_msg = Some msg \<rparr>"

text \<open>\<open>e.message || String(e)\<close> for a thrown \<open>Error\<close> with the given message.\<close>

definition error_text :: "string \<Rightarrow> string" where
  "error_text msg = (if msg = [] then ''Error'' else msg)"

text \<open>
  A value that is thrown, or with which a promise rejects: \<open>null\<close> or \<open>undefined\<close>; an
  \<open>Error\<close> with its message; or another value, given by its \<open>String(e)\<close>, that has no
  message.
\<close>

datatype thrown =
    Nullish
  | AnError string
  | AValue string

text \<open>
  \<open>e.message || String(e)\<close> as line 225 computes it: reading \<open>e.message\<close> is a type error
  when \<open>e\<close> is \<open>null\<close> or \<open>undefined\<close> (\<open>None\<close>).
\<close>

fun thrown_text :: "thrown \<Rightarrow> string option" where
  "thrown_text Nullish = None"
| "thrown_text (AnError msg) = Some (error_text msg)"
| "thrown_text (AValue s) = Some s"

text \<open>
  What \<open>require('@/common')\<close> yields: the import may throw; \<open>components?.wrenAIAdaptor\<close> may be
  missing; \<open>reinitializeFromLLM\<close> may not be a function; when it is, it returns (\<open>None\<close>) or
  throws a value.
\<close>

datatype adaptor =
    Unavailable
  | NoCapability
  | Reinitialize "json \<Rightarrow> thrown option"

text \<open>Lines 201 to 207: the first \<open>llm\<close> entry, or a fresh one, with the update assigned onto
  it in memory.\<close>

definition switch_entry :: "json list \<Rightarrow> obj \<Rightarrow> obj" where
  "switch_entry docs incoming =
     (case find is_llm docs of
        Some (JObj d) \<Rightarrow> d ++ incoming
      | _ \<Rightarrow> [''type'' \<mapsto> JStr ''llm''] ++ incoming)"

text \<open>The catch block, lines 223 to 226: a structured result, unless computing the message
  raises.\<close>

definition caught :: "thrown \<Rightarrow> error + result" where
  "caught e = (case thrown_text e of None \<Rightarrow> Inl TypeError | Some msg \<Rightarrow> Inr (failed msg))"

definition succeeded :: result where
  "succeeded = \<lparr> ok = True, status = None, payload = None, error_msg = None \<rparr>"

text \<open>Lines 210 to 226.\<close>

definition notify :: "thrown + adaptor \<Rightarrow> json \<Rightarrow> error + result" where
  "notify common llmDoc =
     (case common of
        Inl e \<Rightarrow> caught e
      | Inr Unavailable \<Rightarrow> Inr (failed ''Adaptor does not support reinitialization'')
      | Inr NoCapability \<Rightarrow> Inr (failed ''Adaptor does not support reinitialization'')
      | Inr (Reinitialize f) \<Rightarrow>
          (case f llmDoc of
             None \<Rightarrow> Inr succeeded
           | Some e \<Rightarrow> caught e))"

definition switchLLMNow ::
  "proc \<Rightarrow> ctx \<Rightarrow> obj \<Rightarrow> thrown + adaptor \<Rightarrow> world \<Rightarrow> (error + result) \<times> world" where
  "switchLLMNow pr c data common w =
     (if \<not> isAdmin c then (Inl Unauthorized, w)
      else let incoming = data
           in case readConfig pr w of
                (Inl e, w1) \<Rightarrow> (Inl e, w1)
              | (Inr docs, w1) \<Rightarrow> (notify common (JObj (switch_entry docs incoming)), w1))"

text \<open>An empty filesystem, and one on which the user-level directory cannot be created.\<close>

definition world_empty :: world where
  "world_empty = world_of Map.empty"





section \<open>ConfigResolver: masking\<close>

definition secretKeys :: "string list" where
  "secretKeys = [''api_key'', ''apiKey'', ''key'', ''secret'', ''password'', ''token'']"

text \<open>\<open>secretKeys.forEach((k) => { if (o[k]) o[k] = '*****'; })\<close>\<close>

definition mask_keys :: "obj \<Rightarrow> obj" where
  "mask_keys ob = fold (\<lambda>k m. if truthy (m k) then m(k \<mapsto> JStr ''*****'') else m) secretKeys ob"

text \<open>
  The object spread \<open>{ ...m }\<close>: the own properties of an object; the characters of a string
  and the elements of an array under their indices; nothing for \<open>null\<close>, a boolean or a
  number.
\<close>

fun spread :: "json \<Rightarrow> obj" where
  "spread (JObj d) = d"
| "spread (JStr s) = map_of (zip (map show_nat [0 ..< length s]) (map (\<lambda>c. JStr [c]) s))"
| "spread (JArr xs) = map_of (zip (map show_nat [0 ..< length xs]) xs)"
| "spread _ = Map.empty"

text \<open>
  \<open>maskSecrets\<close>.  A falsy document is returned as it is.  The copy made through
  \<open>JSON.parse(JSON.stringify(doc))\<close> is the value itself, values being immutable here.  Only an
  object has a \<open>models\<close> property or secret fields to overwrite; the two self-assignments of
  \<open>api_key_env\<close> and \<open>active_model\<close> change nothing.
\<close>

fun maskSecrets :: "json \<Rightarrow> json" where
  "maskSecrets (JObj d) =
     (let copy = (case d ''models'' of
                    Some (JArr ms) \<Rightarrow> d(''models'' \<mapsto> JArr (map (\<lambda>m. JObj (mask_keys (spread m))) ms))
                  | _ \<Rightarrow> d)
      in JObj (mask_keys copy))"
| "maskSecrets doc = doc"

definition getLLMConfig :: "proc \<Rightarrow> world \<Rightarrow> (error + json list) \<times> world" where
  "getLLMConfig pr w =
     (case readConfig pr w of
        (Inl e, w1) \<Rightarrow> (Inl e, w1)
      | (Inr docs, w1) \<Rightarrow>
          (let llmDocs = filter is_llm docs
           in (Inr (map maskSecrets (if llmDocs \<noteq> [] then llmDocs else docs)), w1)))"



section \<open>ConfigResolver: the connectivity test\<close>

text \<open>
  An outbound request, and the network as a function from the request to what \<open>axios\<close> does
  with it: it throws an error with a message, or returns a status and a body.
\<close>

record request =
  req_method :: string
  req_url :: string
  req_headers :: "(string \<times> string) list"
  req_body :: "json option"
  req_timeout :: nat

type_synonym network = "request \<Rightarrow> string + (int \<times> json)"

text \<open>The properties of the payload: reading one is a type error on \<open>null\<close> (\<open>None\<close>), and
  gives \<open>undefined\<close> on every other value that is not an object.\<close>

fun props :: "json \<Rightarrow> obj option" where
  "props (JObj m) = Some m"
| "props JNull = None"
| "props _ = Some Map.empty"

text \<open>\<open>a || b\<close> with a default that is a value.\<close>

definition or_default :: "json option \<Rightarrow> json \<Rightarrow> json" where
  "or_default a b = (case a of Some v \<Rightarrow> if truthy (Some v) then v else b | None \<Rightarrow> b)"

text \<open>
  \<open>process.env[name]\<close> as a value: the variable when it is set (the empty string is falsy);
  otherwise what the object inherits under that name, a function of \<open>Object.prototype\<close> or,
  for \<open>__proto__\<close>, that prototype itself.
\<close>

definition object_members :: "string list" where
  "object_members = [''constructor'', ''__defineGetter__'', ''__defineSetter__'',
     ''hasOwnProperty'', ''__lookupGetter__'', ''__lookupSetter__'', ''isPrototypeOf'',
     ''propertyIsEnumerable'', ''toString'', ''valueOf'', ''toLocaleString'']"

definition env_value :: "proc \<Rightarrow> string \<Rightarrow> json option" where
  "env_value pr name =
     (case penv pr name of
        Some s \<Rightarrow> Some (JStr s)
      | None \<Rightarrow>
          if name \<in> set object_members then Some (JFun name)
          else if name = ''__proto__'' then Some (JObj Map.empty)
          else None)"

text \<open>Lines 92 to 99: the effective key.\<close>

definition fallback_key :: "proc \<Rightarrow> json option" where
  "fallback_key pr =
     js_or (env_value pr ''AZURE_OPENAI_API_KEY'')
       (js_or (env_value pr ''OPENAI_API_KEY'')
          (js_or (env_value pr ''DEEPSEEK_API_KEY'') (env_value pr ''OPENROUTER_API_KEY'')))"

definition resolve_key :: "proc \<Rightarrow> obj \<Rightarrow> json option" where
  "resolve_key pr d =
     (let apiKey0 = js_or (js_or (d ''api_key'') (d ''apiKey'')) None;
          apiKey1 = (if \<not> truthy apiKey0 \<and> truthy (d ''api_key_env'')
                     then (case d ''api_key_env'' of
                             Some v \<Rightarrow> env_value pr (js_to_string v)
                           | None \<Rightarrow> None)
                     else apiKey0)
      in if \<not> truthy apiKey1 then fallback_key pr else apiKey1)"

text \<open>What follows a response: \<open>2xx\<close> is success, any other status a failure with the status.\<close>

definition from_response :: "int \<times> json \<Rightarrow> result" where
  "from_response r =
     (if 200 \<le> fst r \<and> fst r < 300
      then \<lparr> ok = True, status = Some (fst r), payload = Some (snd r), error_msg = None \<rparr>
      else \<lparr> ok = False, status = Some (fst r), payload = None, error_msg = None \<rparr>)"

definition send :: "network \<Rightarrow> request \<Rightarrow> result \<times> request list" where
  "send net rq =
     (case net rq of
        Inl msg \<Rightarrow> (failed (error_text msg), [rq])
      | Inr r \<Rightarrow> (from_response r, [rq]))"

text \<open>A type error that the enclosing \<open>try\<close> turns into a result; no request was made.\<close>

definition type_error :: "result \<times> request list" where
  "type_error = (failed ''TypeError'', [])"

text \<open>\<open>apiBase.endsWith('/') ? apiBase + a : apiBase + '/' + a\<close>, for a string \<open>apiBase\<close>.\<close>

definition url_join :: "string \<Rightarrow> string \<Rightarrow> string" where
  "url_join base a = (if endsWith base ''/'' then base @ a else base @ ''/'' @ a)"

definition bearer :: "json \<Rightarrow> (string \<times> string) list" where
  "bearer apiKey = [(''Authorization'', ''Bearer '' @ js_to_string apiKey)]"

definition get_probe ::
  "network \<Rightarrow> json \<Rightarrow> string \<Rightarrow> (string \<times> string) list \<Rightarrow> nat \<Rightarrow> result \<times> request list" where
  "get_probe net apiBase a hdrs t =
     (case apiBase of
        JStr base \<Rightarrow>
          send net \<lparr> req_method = ''GET'', req_url = url_join base a, req_headers = hdrs,
                     req_body = None, req_timeout = t \<rparr>
      | _ \<Rightarrow> type_error)"

text \<open>\<open>models[0]?.model\<close>\<close>

definition firstModel :: "json \<Rightarrow> json option" where
  "firstModel models =
     (case (case models of
              JArr (x # xs) \<Rightarrow> Some x
            | JObj m \<Rightarrow> m ''0''
            | _ \<Rightarrow> None) of
        Some (JObj e) \<Rightarrow> e ''model''
      | _ \<Rightarrow> None)"

text \<open>\<open>firstModel.includes('/') ? firstModel.split('/').pop() : firstModel\<close>, as the text that
  the template literal prints.\<close>

definition deployment :: "json \<Rightarrow> error + string" where
  "deployment fm =
     (case fm of
        JStr s \<Rightarrow> Inr (if str_includes s ''/'' then rev (takeWhile (\<lambda>c. c \<noteq> CHR ''/'') (rev s)) else s)
      | JArr xs \<Rightarrow> if JStr ''/'' \<in> set xs then Inl TypeError else Inr (js_to_string fm)
      | _ \<Rightarrow> Inl TypeError)"

definition azure_probe :: "network \<Rightarrow> obj \<Rightarrow> json \<Rightarrow> json \<Rightarrow> json \<Rightarrow> result \<times> request list" where
  "azure_probe net d apiBase models apiKey =
     (let apiVersion = or_default (d ''api_version'') (JStr ''2024-02-15-preview'')
      in case firstModel models of
           None \<Rightarrow> (failed ''No deployment/model specified for Azure test'', [])
         | Some fm \<Rightarrow>
             if \<not> truthy (Some fm)
             then (failed ''No deployment/model specified for Azure test'', [])
             else (case deployment fm of
                     Inl e \<Rightarrow> type_error
                   | Inr dep \<Rightarrow>
                       (case apiBase of
                          JStr base \<Rightarrow>
                            send net
                              \<lparr> req_method = ''POST'',
                                req_url = url_join base
                                  (''openai/deployments/'' @ dep @ ''/completions?api-version=''
                                   @ js_to_string apiVersion),
                                req_headers = [(''api-key'', js_to_string apiKey),
                                               (''Content-Type'', ''application/json'')],
                                req_body = Some (JObj [''prompt'' \<mapsto> JStr ''hello'',
                                                       ''max_tokens'' \<mapsto> JNum 1]),
                                req_timeout = 7000 \<rparr>
                        | _ \<Rightarrow> type_error)))"

text \<open>\<open>provider.includes(name) || (apiBase && apiBase.includes(name))\<close>\<close>

definition family :: "string \<Rightarrow> json \<Rightarrow> string \<Rightarrow> error + bool" where
  "family provider apiBase name =
     (if str_includes provider name then Inr True else value_includes (Some apiBase) name)"

text \<open>Lines 105 to 184: exactly one provider-specific probe.\<close>

definition dispatch ::
  "network \<Rightarrow> obj \<Rightarrow> string \<Rightarrow> json \<Rightarrow> json \<Rightarrow> json \<Rightarrow> result \<times> request list" where
  "dispatch net d provider apiBase models apiKey =
     (case (if str_includes provider ''azure'' \<or> truthy (d ''api_version'') then Inr True
            else value_includes (Some apiBase) ''.openai.azure.com'') of
        Inl e \<Rightarrow> type_error
      | Inr True \<Rightarrow> azure_probe net d apiBase models apiKey
      | Inr False \<Rightarrow>
     (case family provider apiBase ''openrouter'' of
        Inl e \<Rightarrow> type_error
      | Inr True \<Rightarrow> get_probe net apiBase ''v1/models'' (bearer apiKey) 5000
      | Inr False \<Rightarrow>
     (case family provider apiBase ''ollama'' of
        Inl e \<Rightarrow> type_error
      | Inr True \<Rightarrow> get_probe net apiBase ''api/ping'' [] 4000
      | Inr False \<Rightarrow>
     (case family provider apiBase ''deepseek'' of
        Inl e \<Rightarrow> type_error
      | Inr True \<Rightarrow> get_probe net apiBase ''v1/models'' (bearer apiKey) 5000
      | Inr False \<Rightarrow> get_probe net apiBase ''models'' (bearer apiKey) 5000))))"

text \<open>\<open>(data.provider || '').toLowerCase()\<close>: only a string has \<open>toLowerCase\<close>.\<close>

definition provider_lower :: "json option \<Rightarrow> error + string" where
  "provider_lower v =
     (if \<not> truthy v then Inr []
      else case v of Some (JStr s) \<Rightarrow> Inr (toLowerCase s) | _ \<Rightarrow> Inl TypeError)"

text \<open>
  \<open>testLLMConnection\<close>: the result and the requests that were sent.  The function makes no
  filesystem call, so the filesystem it runs on comes back as it is.
\<close>

definition testLLMConnection ::
  "proc \<Rightarrow> network \<Rightarrow> json \<Rightarrow> world \<Rightarrow> (result \<times> request list) \<times> world" where
  "testLLMConnection pr net data w =
     (case props data of
        None \<Rightarrow> (type_error, w)
      | Some d \<Rightarrow>
          (case provider_lower (d ''provider'') of
             Inl e \<Rightarrow> (type_error, w)
           | Inr provider \<Rightarrow>
               (let apiBase = or_default (d ''api_base'') (JStr ''https://api.openai.com/v1'');
                    models = or_default (d ''models'') (JArr []);
                    apiKey = resolve_key pr d
                in case apiKey of
                     None \<Rightarrow> ((failed ''No API key provided or found in environment'', []), w)
                   | Some k \<Rightarrow>
                       if \<not> truthy (Some k)
                       then ((failed ''No API key provided or found in environment'', []), w)
                       else (dispatch net d provider apiBase models k, w))))"

text \<open>A process environment with two of the well-known variables, and a network that answers
  every request with status 200.\<close>

definition proc_env :: proc where
  "proc_env = proc0\<lparr> penv := [''OPENAI_API_KEY'' \<mapsto> ''sk-openai'',
                                ''DEEPSEEK_API_KEY'' \<mapsto> ''sk-deepseek'',
                                ''MY_KEY'' \<mapsto> ''sk-mine''] \<rparr>"

definition net_ok :: network where
  "net_ok rq = Inr (200, JNull)"

text \<open>The precedence in the words of the specification: the key named by \<open>api_key_env\<close>, and the
  fixed list of fallback names in its order.\<close>

definition named_key :: "proc \<Rightarrow> obj \<Rightarrow> json option" where
  "named_key pr d =
     (case d ''api_key_env'' of
        Some v \<Rightarrow> if truthy (Some v) then env_value pr (js_to_string v) else None
      | None \<Rightarrow> None)"

definition fallback_names :: "string list" where
  "fallback_names = [''AZURE_OPENAI_API_KEY'', ''OPENAI_API_KEY'', ''DEEPSEEK_API_KEY'',
                     ''OPENROUTER_API_KEY'']"

definition first_fallback :: "proc \<Rightarrow> json option" where
  "first_fallback pr =
     (case find (\<lambda>n. truthy (env_value pr n)) fallback_names of
        Some n \<Rightarrow> env_value pr n
      | None \<Rightarrow> None)"

definition test_raw :: obj where
  "test_raw = [''api_key'' \<mapsto> JStr ''sk-raw'', ''api_key_env'' \<mapsto> JStr ''MY_KEY'']"

definition test_named :: obj where
  "test_named = [''api_key_env'' \<mapsto> JStr ''MY_KEY'']"

definition test_plain :: obj where
  "test_plain = [''provider'' \<mapsto> JStr ''openai'']"

text \<open>A payload that names the variable under which \<open>upd_key\<close> was stored, and one that names
  an inherited member.\<close>

definition test_stored :: obj where
  "test_stored = [''provider'' \<mapsto> JStr ''deepseek'', ''api_key_env'' \<mapsto> JStr ''DEEPSEEK_API_KEY'']"

definition test_member :: obj where
  "test_member = [''api_key_env'' \<mapsto> JStr ''toString'']"

section \<open>Names and values that survive the secrets file\<close>

text \<open>
  The file has no quoting.  A key comes back from the file as it was written when it is not
  empty, has no white space at its ends, contains neither \<open>=\<close> nor a line feed, does not
  start a comment and is not \<open>__proto__\<close>; a value when it has no white space at its ends and
  no line feed.
\<close>

definition key_ok :: "string \<Rightarrow> bool" where
  "key_ok k = (trim k = k \<and> CHR ''='' \<notin> set k \<and> CHR 0x0A \<notin> set k \<and> k \<noteq> ''__proto__''
               \<and> take 1 k \<noteq> ''#'')"

definition plain_key :: "string \<Rightarrow> bool" where
  "plain_key k = (k \<noteq> [] \<and> key_ok k)"

definition plain_val :: "string \<Rightarrow> bool" where
  "plain_val v = (trim v = v \<and> CHR 0x0A \<notin> set v)"

definition wf_kv :: "(string \<times> string) list \<Rightarrow> bool" where
  "wf_kv kv = (distinct (map fst kv) \<and> list_all (\<lambda>e. key_ok (fst e) \<and> plain_val (snd e)) kv)"

text \<open>The line of an entry, as the template literal prints it.\<close>

definition env_line :: "string \<times> string \<Rightarrow> string" where
  "env_line e = fst e @ ''='' @ snd e"

text \<open>A line that \<open>split\<close> gives back as it is.\<close>

definition good_line :: "string \<Rightarrow> bool" where
  "good_line l = (CHR 0x0A \<notin> set l \<and> (l = [] \<or> last l \<noteq> CHR 0x0D))"

text \<open>A key of two lines, and a secrets file with a comment, a blank line and two entries.\<close>

definition two_lines :: string where
  "two_lines = ''a\<newline>B=1''"

definition env_text :: string where
  "env_text = ''# keys'' @ [CHR 0x0A, CHR 0x0A] @ ''OPENAI_API_KEY = sk-1'' @ [CHR 0x0D, CHR 0x0A]
     @ ''OTHER=x''"

definition world_env :: world where
  "world_env = world_of [''/home/u/.wrenai/.env'' \<mapsto> env_text]"

section \<open>Evaluation and helper lemmas\<close>

lemmas path_defs = homedirConfig_def homedirDir_def path_join_def DEFAULT_CONFIG_PATH_def
  PROJECT_CONFIG_PATH_def parentConfig_def candidates_def envPath_def

lemmas fs_defs = readFile_def access_def mkdir_def writeFile_def unlink_def world_of_def

lemma new_docs_nth:
  "i < length docs \<Longrightarrow> new_docs inc docs ! i = merge_doc inc (docs ! i)"
  by (simp add: new_docs_def Let_def nth_append)

lemma sanitize_active_model:
  "sanitize pr data w = (Inr inc, w1) \<Longrightarrow> inc ''active_model'' = data ''active_model''"
  by (auto simp: sanitize_def Let_def strip_keys_def split: if_splits sum.splits prod.splits)

lemma writeConfig_Inr:
  "writeConfig pr docs w = (Inr r, w') \<Longrightarrow>
     r = docs \<and> files w' (homedirConfig pr) = Some (serialize pr docs)"
  by (auto simp: writeConfig_def Let_def mkdir_def writeFile_def split: if_splits)

lemma update_persists:
  assumes "sanitize pr data w = (Inr inc, w1)" "readConfig pr w1 = (Inr docs, w2)"
    and "updateLLMConfig pr c data w = (Inr r, w')"
  shows "r = inc \<and> files w' (homedirConfig pr) = Some (serialize pr (new_docs inc docs))"
  using assms
  by (auto simp: updateLLMConfig_def merge_and_write_def split: if_splits sum.splits prod.splits
           dest: writeConfig_Inr)

lemma grows_refl: "grows pr w w"
  by (simp add: grows_def)

lemma grows_trans: "grows pr w w1 \<Longrightarrow> grows pr w1 w2 \<Longrightarrow> grows pr w w2"
  by (auto simp: grows_def)

lemma grows_mkdir: "grows pr w (snd (mkdir (homedirDir pr) w))"
  by (simp add: grows_def mkdir_def Let_def)

lemma grows_writeFile: "grows pr w (snd (writeFile (homedirConfig pr) c w))"
  by (simp add: grows_def writeFile_def Let_def)

lemma grows_unlink: "grows pr w (snd (unlink (DEFAULT_CONFIG_PATH pr) w))"
  by (simp add: grows_def unlink_def Let_def)

lemma grows_migrate: "grows pr w (migrate pr raw w)"
proof -
  let ?w1 = "snd (mkdir (homedirDir pr) w)"
  let ?w2 = "snd (writeFile (homedirConfig pr) raw ?w1)"
  let ?w3 = "snd (unlink (DEFAULT_CONFIG_PATH pr) ?w2)"
  have 1: "grows pr w ?w1" by (rule grows_mkdir)
  have 2: "grows pr w ?w2" using 1 grows_writeFile grows_trans by blast
  have 3: "grows pr w ?w3" using 2 grows_unlink grows_trans by blast
  have "migrate pr raw w \<in> {w, ?w1, ?w2, ?w3}"
    by (auto simp: migrate_def split: prod.splits sum.splits)
  then show ?thesis using 1 2 3 grows_refl by auto
qed

lemma grows_try_candidates:
  "try_candidates pr ps lastErr w = (r, w') \<Longrightarrow> grows pr w w'"
proof (induction ps arbitrary: lastErr w)
  case Nil
  then show ?case by (simp add: grows_refl)
next
  case (Cons p ps)
  show ?case
  proof (cases "readFile p w")
    case (Inl e)
    then show ?thesis using Cons by simp
  next
    case (Inr raw)
    let ?w1 = "if p = DEFAULT_CONFIG_PATH pr then migrate pr raw w else w"
    have g: "grows pr w ?w1" by (simp add: grows_refl grows_migrate)
    show ?thesis
    proof (cases "loadAll pr raw")
      case None
      then have "try_candidates pr ps (Some YamlError) ?w1 = (r, w')"
        using Cons.prems Inr by (simp add: Let_def)
      then have "grows pr ?w1 w'" by (rule Cons.IH)
      then show ?thesis using g grows_trans by blast
    next
      case (Some docs)
      then have "w' = ?w1" using Cons.prems Inr by (simp add: Let_def)
      then show ?thesis using g by simp
    qed
  qed
qed

lemma grows_create_default: "create_default pr lastErr w = (r, w') \<Longrightarrow> grows pr w w'"
proof -
  assume a: "create_default pr lastErr w = (r, w')"
  let ?w1 = "snd (mkdir (homedirDir pr) w)"
  let ?w2 = "snd (writeFile (homedirConfig pr) defaultYaml ?w1)"
  have 1: "grows pr w ?w1" by (rule grows_mkdir)
  have 2: "grows pr w ?w2" using 1 grows_writeFile grows_trans by blast
  have "w' \<in> {?w1, ?w2}"
    using a by (auto simp: create_default_def split: prod.splits sum.splits option.splits)
  then show ?thesis using 1 2 by auto
qed

lemma grows_readConfig: "readConfig pr w = (r, w') \<Longrightarrow> grows pr w w'"
  by (auto simp: readConfig_def split: prod.splits sum.splits
      dest: grows_try_candidates grows_create_default intro: grows_trans)

lemma grows_writeConfig: "writeConfig pr docs w = (r, w') \<Longrightarrow> grows pr w w'"
proof -
  assume a: "writeConfig pr docs w = (r, w')"
  let ?w1 = "snd (mkdir (homedirDir pr) w)"
  let ?w2 = "snd (writeFile (homedirConfig pr) (serialize pr docs) ?w1)"
  have 1: "grows pr w ?w1" by (rule grows_mkdir)
  have 2: "grows pr w ?w2" using 1 grows_writeFile grows_trans by blast
  have "w' \<in> {w, ?w2}"
    using a by (auto simp: writeConfig_def Let_def split: prod.splits sum.splits if_splits)
  then show ?thesis using 2 grows_refl by auto
qed

lemma grows_merge_and_write: "merge_and_write pr inc w = (r, w') \<Longrightarrow> grows pr w w'"
  by (auto simp: merge_and_write_def split: prod.splits sum.splits
      dest: grows_readConfig grows_writeConfig intro: grows_trans)

lemma config_not_env: "homedirConfig pr \<noteq> envPath pr"
  by (simp add: homedirConfig_def homedirDir_def envPath_def path_join_def)

lemma grows_no_env_write: "grows pr w w' \<Longrightarrow> \<not> writes_to (envPath pr) (new_calls w w')"
proof -
  assume "grows pr w w'"
  then obtain xs where xs: "journal w' = journal w @ xs" "list_all (config_call pr) xs"
    by (auto simp: grows_def)
  have "\<not> is_write_to (envPath pr) e" if "config_call pr e" for e
    using that config_not_env [of pr] by (cases e) auto
  then show ?thesis
    using xs by (auto simp: writes_to_def new_calls_def list_ex_iff list_all_iff)
qed

lemma merge_doc_absent:
  "inc k = None \<Longrightarrow> \<exists>d'. merge_doc inc (JObj d) = JObj d' \<and> d' k = d k"
  by (simp add: Let_def map_add_def)

lemma merge_doc_non_obj: "\<forall>m. d \<noteq> JObj m \<Longrightarrow> merge_doc inc d = d"
  by (cases d) auto


lemma new_docs_length:
  "list_ex is_llm docs \<Longrightarrow> length (new_docs inc docs) = length docs"
  by (simp add: new_docs_def)

lemma sanitize_nopersist:
  "data ''persistKey'' = Some (JBool False) \<Longrightarrow>
   sanitize pr data w = (Inr ((strip_keys data)(''api_key_env'' := None)), w)"
  by (simp add: sanitize_def)

lemma update_succeeds:
  assumes "isAdmin c" "sanitize pr data w = (Inr inc, w1)" "readConfig pr w1 = (Inr docs, w2)"
    and "list_ex is_llm (new_docs inc docs)" "homedirConfig pr \<notin> faulty w2"
  shows "\<exists>w'. updateLLMConfig pr c data w = (Inr inc, w')"
  using assms
  by (simp add: updateLLMConfig_def merge_and_write_def writeConfig_def Let_def mkdir_def
      writeFile_def)

lemma isAdmin_admin: "isAdmin admin"
  by (simp add: isAdmin_def admin_def)

lemma readConfig_world_legacy: "readConfig proc0 world_legacy = (Inr [JObj llm_legacy], world_legacy)"
  by (simp add: readConfig_def path_defs fs_defs proc0_def world_legacy_def)

lemma not_faulty_examples:
  "p \<notin> faulty world_m1" "p \<notin> faulty world_legacy"
  by (simp_all add: world_m1_def world_legacy_def world_of_def)

lemma upd_nopersist_flag: "upd_nopersist ''persistKey'' = Some (JBool False)"
  by (simp add: upd_nopersist_def)

lemma sanitize_upd_nopersist:
  "sanitize pr upd_nopersist w = (Inr ((strip_keys upd_nopersist)(''api_key_env'' := None)), w)"
  by (simp add: sanitize_nopersist upd_nopersist_flag)

lemma update_nopersist_legacy:
  "\<exists>w'. updateLLMConfig proc0 admin upd_nopersist world_legacy
           = (Inr ((strip_keys upd_nopersist)(''api_key_env'' := None)), w')"
proof (rule update_succeeds [OF isAdmin_admin sanitize_upd_nopersist
        readConfig_world_legacy])
  show "list_ex is_llm (new_docs ((strip_keys upd_nopersist)(''api_key_env'' := None)) [JObj llm_legacy])"
    by (simp add: new_docs_def llm_legacy_def Let_def strip_keys_def upd_nopersist_def map_add_def)
  show "homedirConfig proc0 \<notin> faulty world_legacy" by (rule not_faulty_examples)
qed

lemma serialize_nopersist_legacy:
  "serialize proc0 (new_docs ((strip_keys upd_nopersist)(''api_key_env'' := None)) [JObj llm_legacy])
     = ''type: llm; api_key: sk-old; persistKey: false; ''"
  by (simp add: serialize_def new_docs_def llm_legacy_def Let_def strip_keys_def upd_nopersist_def
      map_add_def proc0_def toy_dump_def)

lemma sanitize_upd_provider: "sanitize proc0 upd_provider world_m1 = (Inr upd_provider, world_m1)"
  by (simp add: sanitize_def upd_provider_def keyValue_def js_or_def)

lemma readConfig_world_m1: "readConfig proc0 world_m1 = (Inr [JObj llm_m1], world_m1)"
  by (simp add: readConfig_def path_defs fs_defs proc0_def world_m1_def)

lemma llm_m1_is_llm: "is_llm (JObj llm_m1)"
  by (simp add: llm_m1_def)

lemma update_world_m1:
  "\<exists>w'. updateLLMConfig proc0 admin upd_provider world_m1 = (Inr upd_provider, w')"
  apply (simp add: updateLLMConfig_def isAdmin_def admin_def sanitize_upd_provider
      merge_and_write_def readConfig_world_m1)
  apply (simp add: writeConfig_def new_docs_def llm_m1_is_llm Let_def fs_defs)
  apply (simp add: world_m1_def world_of_def)
  apply (simp add: llm_m1_def upd_provider_def map_add_def)
  done

lemma field_merge_doc: "inc k = None \<Longrightarrow> field k (merge_doc inc d) = field k d"
  by (cases d) (auto simp: Let_def map_add_def)

lemma field_new_docs:
  "inc k = None \<Longrightarrow>
   map (field k) (new_docs inc docs)
     = map (field k) docs @ (if list_ex is_llm docs then [] else [None])"
  by (simp add: new_docs_def Let_def field_merge_doc)

lemma update_nopersist_m1:
  "\<exists>w'. updateLLMConfig proc0 admin upd_nopersist world_m1
           = (Inr ((strip_keys upd_nopersist)(''api_key_env'' := None)), w')"
proof (rule update_succeeds [OF isAdmin_admin sanitize_upd_nopersist readConfig_world_m1])
  show "list_ex is_llm (new_docs ((strip_keys upd_nopersist)(''api_key_env'' := None)) [JObj llm_m1])"
    by (simp add: new_docs_def llm_m1_def Let_def strip_keys_def upd_nopersist_def map_add_def)
  show "homedirConfig proc0 \<notin> faulty world_m1" by (rule not_faulty_examples)
qed

lemma update_grows_nopersist:
  assumes "data ''persistKey'' = Some (JBool False)"
  shows "grows pr w (snd (updateLLMConfig pr c data w))"
proof (cases "isAdmin c")
  case False
  then show ?thesis by (simp add: updateLLMConfig_def grows_refl)
next
  case True
  let ?inc = "(strip_keys data)(''api_key_env'' := None)"
  have "updateLLMConfig pr c data w = merge_and_write pr ?inc w"
    using True assms by (simp add: updateLLMConfig_def sanitize_nopersist)
  then show ?thesis
    using grows_merge_and_write [of pr ?inc w] by (metis prod.collapse)
qed



lemma set_entries: "set (entries kv) = set kv"
  by (auto simp: entries_def)



lemma mkdir_frame:
  "files (snd (mkdir p w)) = files w" "unreadable (snd (mkdir p w)) = unreadable w"
  "faulty (snd (mkdir p w)) = faulty w" "journal (snd (mkdir p w)) = journal w @ [Mkdir p]"
  by (simp_all add: mkdir_def Let_def)

lemma readFile_mkdir: "readFile q (snd (mkdir p w)) = readFile q w"
  by (simp add: readFile_def mkdir_frame split: option.splits)

lemma env_content_mkdir: "env_content pr (snd (mkdir p w)) = env_content pr w"
  by (simp add: env_content_def readFile_mkdir)


lemma writeEnvVar_ok:
  "writeEnvVar pr n v w = (Inr u, w1) \<Longrightarrow>
   files w1 (envPath pr) = Some (render_env (kv_set n v (parse_env (env_content pr w))))"
  by (auto simp: writeEnvVar_def Let_def env_content_mkdir writeFile_def mkdir_frame
      split: if_splits)











lemma parse_env_empty: "parse_env [] = []"
  by (simp add: parse_env_def)








lemma paths0:
  "homedirConfig proc0 = ''/home/u/.wrenai/config.yaml''" "envPath proc0 = ''/home/u/.wrenai/.env''"
  "homedirDir proc0 = ''/home/u/.wrenai''"
  by (simp_all add: path_defs proc0_def)

lemma new_calls_self: "new_calls w w = []"
  by (simp add: new_calls_def)

lemma migrate_calls:
  "new_calls w (migrate pr raw w)
     = (if access (homedirConfig pr) w then [] else migration_calls pr raw w)"
  by (simp add: migrate_def migration_calls_def new_calls_def mkdir_def writeFile_def unlink_def
      Let_def)

lemma migrate_files:
  assumes "\<not> access (homedirConfig pr) w" "homedirDir pr \<notin> faulty w"
    "homedirConfig pr \<notin> faulty w" "DEFAULT_CONFIG_PATH pr \<notin> faulty w"
    "files w (DEFAULT_CONFIG_PATH pr) \<noteq> None"
  shows "files (migrate pr raw w) = (files w)(homedirConfig pr \<mapsto> raw, DEFAULT_CONFIG_PATH pr := None)"
  using assms
  by (auto simp: migrate_def mkdir_def writeFile_def unlink_def Let_def access_def)

lemma try_candidates_skip:
  "list_all (\<lambda>q. isl (readFile q w)) qs \<Longrightarrow>
   \<exists>e'. try_candidates pr (qs @ rest) e w = try_candidates pr rest e' w"
proof (induction qs arbitrary: e)
  case Nil
  then show ?case by auto
next
  case (Cons q qs)
  then obtain x where "readFile q w = Inl x" by (cases "readFile q w") auto
  then show ?case using Cons by simp
qed

lemma readConfig_first_readable:
  assumes "candidates pr = qs @ p # rest" "list_all (\<lambda>q. isl (readFile q w)) qs"
    and "readFile p w = Inr raw" "loadAll pr raw = Some docs"
  shows "readConfig pr w
           = (Inr docs, if p = DEFAULT_CONFIG_PATH pr then migrate pr raw w else w)"
proof -
  obtain e' where "try_candidates pr (candidates pr) None w = try_candidates pr (p # rest) e' w"
    using try_candidates_skip [OF assms(2)] assms(1) by metis
  then show ?thesis
    using assms(3,4) by (simp add: readConfig_def Let_def)
qed

lemma migration_exactly_when:
  assumes "candidates pr = qs @ p # rest" "list_all (\<lambda>q. isl (readFile q w)) qs"
    and "readFile p w = Inr raw" "loadAll pr raw = Some docs"
  shows "fst (readConfig pr w) = Inr docs
       \<and> new_calls w (snd (readConfig pr w))
           = (if p = DEFAULT_CONFIG_PATH pr \<and> \<not> access (homedirConfig pr) w
              then migration_calls pr raw w else [])"
  using readConfig_first_readable [OF assms]
  by (simp add: migrate_calls new_calls_self)

lemma paths_override:
  "homedirConfig proc_override = ''/home/u/.wrenai/config.yaml''"
  "homedirDir proc_override = ''/home/u/.wrenai''"
  "PROJECT_CONFIG_PATH proc_override = Some ''/etc/wren.yaml''"
  "DEFAULT_CONFIG_PATH proc_override = ''/etc/wren.yaml''"
  "candidates proc_override
     = [''/etc/wren.yaml'', ''/home/u/.wrenai/config.yaml'', ''/etc/wren.yaml'',
        ''/srv/app/../config.yaml'']"
  by (simp_all add: path_defs proc_override_def proc0_def)


lemma switch_raises_on_nullish:
  assumes "isAdmin c" "readConfig pr w = (Inr docs, w1)"
    and "f (JObj (switch_entry docs data)) = Some Nullish"
  shows "fst (switchLLMNow pr c data (Inr (Reinitialize f)) w) = Inl TypeError"
  using assms by (simp add: switchLLMNow_def notify_def caught_def)

lemma candidates0:
  "candidates proc0
     = [''/home/u/.wrenai/config.yaml'', ''/srv/app/config.yaml'', ''/srv/app/../config.yaml'']"
  by (simp add: path_defs proc0_def)





lemma mask_keys_apply:
  "mask_keys ob k = (if k \<in> set secretKeys \<and> truthy (ob k) then Some (JStr ''*****'') else ob k)"
  by (simp add: mask_keys_def secretKeys_def)


lemma spread_string_element:
  "spread (JStr ''m1'') ''0'' = Some (JStr ''m'')" "spread (JStr ''m1'') ''1'' = Some (JStr ''1'')"
  "spread (JStr ''m1'') ''model'' = None"
  by (simp_all add: digit_def upt_rec)

lemma mask_string_model_element:
  "field ''models'' (maskSecrets (JObj [''type'' \<mapsto> JStr ''llm'', ''models'' \<mapsto> JArr [JStr ''m1'']]))
     = Some (JArr [JObj (mask_keys (spread (JStr ''m1'')))])"
  by (simp add: Let_def mask_keys_apply secretKeys_def)

lemma truthy_js_or: "truthy (js_or a b) = (truthy a \<or> truthy b)"
  by (simp add: js_or_def)



lemma resolve_key_cases:
  "resolve_key pr d =
     (if truthy (keyValue d) then keyValue d
      else if truthy (named_key pr d) then named_key pr d
      else fallback_key pr)"
  by (auto simp: resolve_key_def keyValue_def named_key_def js_or_def Let_def split: option.splits)



lemma tester_with_key:
  assumes "props data = Some d" "provider_lower (d ''provider'') = Inr provider"
    and "resolve_key pr d = Some k" "truthy (Some k)"
  shows "testLLMConnection pr net data w
           = (dispatch net d provider
                (or_default (d ''api_base'') (JStr ''https://api.openai.com/v1''))
                (or_default (d ''models'') (JArr [])) k, w)"
  using assms by (simp add: testLLMConnection_def Let_def)

lemma dispatch_generic:
  assumes "\<not> str_includes provider ''azure''" "\<not> truthy (d ''api_version'')"
    and "\<not> str_includes base ''.openai.azure.com''"
    and "\<not> str_includes provider ''openrouter''" "\<not> str_includes base ''openrouter''"
    and "\<not> str_includes provider ''ollama''" "\<not> str_includes base ''ollama''"
    and "\<not> str_includes provider ''deepseek''" "\<not> str_includes base ''deepseek''"
  shows "dispatch net d provider (JStr base) models k
           = send net \<lparr> req_method = ''GET'', req_url = url_join base ''models'',
                         req_headers = bearer k, req_body = None, req_timeout = 5000 \<rparr>"
  using assms by (simp add: dispatch_def family_def value_includes_def get_probe_def)

lemma env_values:
  "env_value proc_env ''AZURE_OPENAI_API_KEY'' = None"
  "env_value proc_env ''OPENAI_API_KEY'' = Some (JStr ''sk-openai'')"
  "env_value proc_env ''MY_KEY'' = Some (JStr ''sk-mine'')"
  "env_value proc0 ''AZURE_OPENAI_API_KEY'' = None"
  "env_value proc0 ''OPENAI_API_KEY'' = None"
  "env_value proc0 ''DEEPSEEK_API_KEY'' = None"
  "env_value proc0 ''OPENROUTER_API_KEY'' = None"
  "env_value proc0 ''toString'' = Some (JFun ''toString'')"
  by (simp_all add: env_value_def proc_env_def proc0_def object_members_def)

lemma example_keys:
  "keyValue test_raw = Some (JStr ''sk-raw'')" "keyValue test_named = None"
  "keyValue test_plain = None" "keyValue test_stored = None" "keyValue test_member = None"
  "named_key proc_env test_named = Some (JStr ''sk-mine'')"
  "named_key pr test_plain = None"
  "named_key proc0 test_stored = None"
  "named_key proc0 test_member = Some (JFun ''toString'')"
  "first_fallback proc_env = Some (JStr ''sk-openai'')" "first_fallback proc0 = None"
  by (simp_all add: keyValue_def js_or_def test_raw_def test_named_def test_plain_def
      test_stored_def test_member_def named_key_def env_values first_fallback_def
      fallback_names_def)

lemma fallback_examples:
  "fallback_key proc_env = Some (JStr ''sk-openai'')" "\<not> truthy (fallback_key proc0)"
  by (simp_all add: fallback_key_def env_values js_or_def)

lemma resolve_plain:
  "resolve_key proc_env test_plain = Some (JStr ''sk-openai'')"
  "\<not> truthy (resolve_key proc0 test_plain)"
  "\<not> truthy (resolve_key proc0 test_stored)"
  "resolve_key proc0 test_member = Some (JFun ''toString'')"
  by (simp_all add: resolve_key_cases example_keys fallback_examples)

lemma provider_plain:
  "provider_lower (test_plain ''provider'') = Inr ''openai''"
  "provider_lower (test_stored ''provider'') = Inr ''deepseek''"
  "provider_lower (test_member ''provider'') = Inr []"
  by (simp_all add: test_plain_def test_stored_def test_member_def provider_lower_def
      toLowerCase_def lower_char_def)

lemma plain_defaults:
  "or_default (test_plain ''api_base'') (JStr ''https://api.openai.com/v1'')
     = JStr ''https://api.openai.com/v1''"
  "or_default (test_plain ''models'') (JArr []) = JArr []"
  "\<not> truthy (test_plain ''api_version'')"
  "or_default (test_member ''api_base'') (JStr ''https://api.openai.com/v1'')
     = JStr ''https://api.openai.com/v1''"
  "or_default (test_member ''models'') (JArr []) = JArr []"
  "\<not> truthy (test_member ''api_version'')"
  by (simp_all add: test_plain_def test_member_def or_default_def)

lemma send_ok:
  "send net_ok rq = (\<lparr> ok = True, status = Some 200, payload = Some JNull, error_msg = None \<rparr>, [rq])"
  by (simp add: send_def net_ok_def from_response_def)

text \<open>A name that \<open>process.env\<close> inherits counts as a key: the request goes out with the
  text of the function as the bearer token.\<close>

lemma inherited_member_taken_as_key:
  "testLLMConnection proc0 net_ok (JObj test_member) w
     = ((\<lparr> ok = True, status = Some 200, payload = Some JNull, error_msg = None \<rparr>,
         [\<lparr> req_method = ''GET'', req_url = ''https://api.openai.com/v1/models'',
             req_headers = [(''Authorization'', ''Bearer function toString() { [native code] }'')],
             req_body = None, req_timeout = 5000 \<rparr>]), w)"
proof -
  have "testLLMConnection proc0 net_ok (JObj test_member) w
      = (dispatch net_ok test_member [] (JStr ''https://api.openai.com/v1'') (JArr [])
           (JFun ''toString''), w)"
    using tester_with_key [of "JObj test_member" test_member "[]" proc0 "JFun ''toString''"]
    by (simp add: provider_plain resolve_plain plain_defaults)
  then show ?thesis
    by (simp add: dispatch_generic plain_defaults send_ok url_join_def endsWith_def bearer_def)
qed

lemma trim_fixed:
  assumes "s = [] \<or> (\<not> is_space (hd s) \<and> \<not> is_space (last s))"
  shows "trim s = s"
proof (cases "s = []")
  case True
  then show ?thesis by (simp add: trim_def)
next
  case False
  then have a: "\<not> is_space (hd s)" "\<not> is_space (last s)" using assms by auto
  have 1: "dropWhile is_space s = s"
    using False a(1) by (simp add: dropWhile_eq_self_iff)
  have 2: "dropWhile is_space (rev s) = rev s"
    using False a(2) by (simp add: dropWhile_eq_self_iff hd_rev)
  show ?thesis by (simp add: trim_def 1 2)
qed

lemma dropWhile_ends:
  "dropWhile P xs \<noteq> [] \<Longrightarrow> \<not> P (hd (dropWhile P xs)) \<and> last (dropWhile P xs) = last xs"
  by (induction xs) (auto split: if_splits)

lemma trim_ends:
  "trim s = [] \<or> (\<not> is_space (hd (trim s)) \<and> \<not> is_space (last (trim s)))"
proof (cases "trim s = []")
  case True
  then show ?thesis by simp
next
  case False
  let ?u = "dropWhile is_space s"
  let ?r = "dropWhile is_space (rev ?u)"
  have t: "trim s = rev ?r" by (simp add: trim_def)
  then have r: "?r \<noteq> []" using False by simp
  have u: "?u \<noteq> []"
    using r by (metis dropWhile.simps(1) rev.simps(1))
  have "\<not> is_space (hd ?r)" "last ?r = last (rev ?u)"
    using dropWhile_ends [OF r] by auto
  moreover have "\<not> is_space (hd ?u)" using dropWhile_ends [OF u] by auto
  moreover have "last (rev ?u) = hd ?u" using u by (simp add: last_rev)
  ultimately show ?thesis
    using r by (simp add: t hd_rev last_rev)
qed

lemma trim_idem: "trim (trim s) = trim s"
  using trim_ends [of s] by (rule trim_fixed)

lemma set_trim: "set (trim s) \<subseteq> set s"
proof -
  have "set (trim s) \<subseteq> set (dropWhile is_space s)"
    unfolding trim_def using set_dropWhileD by fastforce
  then show ?thesis using set_dropWhileD by fastforce
qed

lemma trim_hd:
  assumes "trim s \<noteq> []"
  shows "hd (trim s) = hd (dropWhile is_space s)"
proof -
  let ?u = "dropWhile is_space s"
  let ?r = "dropWhile is_space (rev ?u)"
  have r: "?r \<noteq> []" using assms by (simp add: trim_def)
  have u: "?u \<noteq> []"
    using r by (metis dropWhile.simps(1) rev.simps(1))
  have "hd (trim s) = last ?r" using r by (simp add: trim_def hd_rev)
  also have "\<dots> = last (rev ?u)" using dropWhile_ends [OF r] by simp
  also have "\<dots> = hd ?u" using u by (simp add: last_rev)
  finally show ?thesis .
qed

lemma trim_Cons_nonspace: "\<not> is_space c \<Longrightarrow> trim (c # s) \<noteq> [] \<and> hd (trim (c # s)) = c"
proof -
  assume c: "\<not> is_space c"
  then have "dropWhile is_space (rev (c # s)) \<noteq> []"
    by (auto simp: dropWhile_eq_Nil_conv)
  then have "trim (c # s) \<noteq> []" using c by (simp add: trim_def)
  then show ?thesis using trim_hd [of "c # s"] c by simp
qed

lemma indexOf_append: "c \<notin> set k \<Longrightarrow> indexOf (k @ c # rest) c = Some (length k)"
  by (induction k) auto

lemma indexOf_Some:
  "indexOf s c = Some i \<Longrightarrow> c \<notin> set (take i s) \<and> i < length s \<and> s ! i = c"
proof (induction s arbitrary: i)
  case Nil
  then show ?case by simp
next
  case (Cons x xs)
  then show ?case by (cases i) (auto split: if_splits)
qed

lemma split_lines_no_lf: "CHR 0x0A \<notin> set s \<Longrightarrow> split_lines acc s = [rev acc @ s]"
  by (induction s arbitrary: acc) auto

lemma split_lines_first:
  "CHR 0x0A \<notin> set l \<Longrightarrow>
   split_lines acc (l @ CHR 0x0A # rest)
     = rev (case rev l @ acc of [] \<Rightarrow> [] | a # r \<Rightarrow> if a = CHR 0x0D then r else a # r)
       # split_lines [] rest"
  by (induction l arbitrary: acc) auto

lemma split_lines_good:
  assumes "good_line l"
  shows "split_lines [] (l @ CHR 0x0A # rest) = l # split_lines [] rest"
proof -
  have h: "rev (case rev l of [] \<Rightarrow> [] | a # r \<Rightarrow> if a = CHR 0x0D then r else a # r) = l"
  proof (cases "rev l")
    case Nil
    then show ?thesis by simp
  next
    case (Cons a r)
    then have l: "l = rev r @ [a]" by (simp add: rev_eq_Cons_iff)
    then have "a \<noteq> CHR 0x0D" using assms by (simp add: good_line_def)
    then show ?thesis by (simp add: l)
  qed
  have n: "CHR 0x0A \<notin> set l" using assms by (simp add: good_line_def)
  have "split_lines [] (l @ CHR 0x0A # rest)
      = rev (case rev l @ [] of [] \<Rightarrow> [] | a # r \<Rightarrow> if a = CHR 0x0D then r else a # r)
        # split_lines [] rest"
    using n by (rule split_lines_first)
  then show ?thesis by (simp add: h)
qed

lemma split_join:
  "ls \<noteq> [] \<Longrightarrow> list_all good_line ls \<Longrightarrow> split_lines [] (join [CHR 0x0A] ls) = ls"
proof (induction "[CHR 0x0A]" ls rule: join.induct)
  case 1
  then show ?case by simp
next
  case (2 x)
  then show ?case by (simp add: good_line_def split_lines_no_lf)
next
  case (3 x y ys)
  then show ?case by (simp add: split_lines_good)
qed

lemma split_lines_sound:
  "CHR 0x0A \<notin> set acc \<Longrightarrow> l \<in> set (split_lines acc s) \<Longrightarrow> CHR 0x0A \<notin> set l"
proof (induction s arbitrary: acc)
  case Nil
  then show ?case by simp
next
  case (Cons c s)
  show ?case
  proof (cases "c = CHR 0x0A")
    case False
    then show ?thesis using Cons.IH [of "c # acc"] Cons.prems by auto
  next
    case True
    then have "l = rev (case acc of [] \<Rightarrow> [] | a # r \<Rightarrow> if a = CHR 0x0D then r else a # r)
        \<or> l \<in> set (split_lines [] s)"
      using Cons.prems(2) by simp
    moreover have "set (case acc of [] \<Rightarrow> [] | a # r \<Rightarrow> if a = CHR 0x0D then r else a # r) \<subseteq> set acc"
      by (cases acc) auto
    ultimately show ?thesis
      using Cons.IH [of "[]"] Cons.prems(1) by auto
  qed
qed

lemma update_fresh: "k \<notin> fst ` set al \<Longrightarrow> AList.update k v al = al @ [(k, v)]"
  by (induction al) auto

lemma key_ok_nonspace: "key_ok k \<Longrightarrow> k \<noteq> [] \<Longrightarrow> \<not> is_space (hd k)"
  using trim_ends [of k] by (auto simp: key_ok_def)

lemma equals_not_space: "\<not> is_space CHR ''=''"
  by (simp add: is_space_def)

lemma parse_line_rendered:
  assumes "key_ok k" "plain_val v"
  shows "parse_line (env_line (k, v)) kv = (if k = [] then kv else kv_set k v kv)"
proof (cases "k = []")
  case True
  have "trim (CHR ''='' # v) \<noteq> [] \<and> hd (trim (CHR ''='' # v)) = CHR ''=''"
    using equals_not_space by (rule trim_Cons_nonspace)
  then have "take 1 (trim (CHR ''='' # v)) \<noteq> ''#''"
    by (cases "trim (CHR ''='' # v)") auto
  then show ?thesis
    using True by (simp add: parse_line_def env_line_def)
next
  case False
  then obtain c r where k: "k = c # r" by (cases k) auto
  have c: "\<not> is_space c" using key_ok_nonspace [OF assms(1) False] k by simp
  have "c \<noteq> CHR ''#''" using assms(1) k by (simp add: key_ok_def)
  moreover have "trim (c # r @ ''='' @ v) \<noteq> [] \<and> hd (trim (c # r @ ''='' @ v)) = c"
    using c by (rule trim_Cons_nonspace)
  ultimately have 1: "take 1 (trim (env_line (k, v))) \<noteq> ''#''"
    unfolding env_line_def k by (cases "trim (c # r @ ''='' @ v)") auto
  have 2: "indexOf (env_line (k, v)) CHR ''='' = Some (length k)"
    using assms(1) indexOf_append [of "CHR ''=''" k v] by (simp add: env_line_def key_ok_def)
  have 3: "trim (take (length k) (env_line (k, v))) = k"
    "trim (drop (length k + 1) (env_line (k, v))) = v"
    using assms by (simp_all add: env_line_def key_ok_def plain_val_def)
  show ?thesis
    using False 1 2 3 by (simp add: parse_line_def)
qed

lemma fold_parse_rendered:
  assumes "list_all (\<lambda>e. key_ok (fst e) \<and> plain_val (snd e)) es"
    and "distinct (map fst es)" and "fst ` set es \<inter> fst ` set acc = {}"
  shows "fold parse_line (map env_line es) acc = acc @ filter (\<lambda>e. fst e \<noteq> []) es"
  using assms
proof (induction es arbitrary: acc)
  case Nil
  then show ?case by simp
next
  case (Cons e es)
  obtain k v where e: "e = (k, v)" by (cases e)
  have ok: "key_ok k" "plain_val v" using Cons.prems(1) e by simp_all
  have p: "parse_line (env_line e) acc = (if k = [] then acc else acc @ [(k, v)])"
  proof -
    have "k \<notin> fst ` set acc" using Cons.prems(3) e by auto
    moreover have "k \<noteq> ''__proto__''" using ok(1) by (simp add: key_ok_def)
    ultimately show ?thesis
      using parse_line_rendered [OF ok] e by (simp add: kv_set_def update_fresh)
  qed
  have d: "fst ` set es \<inter> fst ` set (if k = [] then acc else acc @ [(k, v)]) = {}"
    using Cons.prems(2,3) e by auto
  have "fold parse_line (map env_line es) (if k = [] then acc else acc @ [(k, v)])
          = (if k = [] then acc else acc @ [(k, v)]) @ filter (\<lambda>e. fst e \<noteq> []) es"
    using Cons.prems(1,2) d by (intro Cons.IH) simp_all
  then show ?case
    using p e by simp
qed

lemma wf_kv_update:
  assumes "wf_kv kv" "key_ok k" "plain_val v"
  shows "wf_kv (AList.update k v kv)"
proof -
  have "set (AList.update k v kv) \<subseteq> insert (k, v) (set kv)"
    by (induction kv) auto
  then have "list_all (\<lambda>e. key_ok (fst e) \<and> plain_val (snd e)) (AList.update k v kv)"
    using assms by (auto simp: wf_kv_def list_all_iff)
  then show ?thesis
    using assms(1) by (simp add: wf_kv_def distinct_update)
qed

lemma wf_kv_set: "wf_kv kv \<Longrightarrow> key_ok k \<Longrightarrow> plain_val v \<Longrightarrow> wf_kv (kv_set k v kv)"
  by (simp add: kv_set_def wf_kv_update)

lemma dropWhile_take_hd:
  "dropWhile P (take i s) \<noteq> [] \<Longrightarrow> hd (dropWhile P (take i s)) = hd (dropWhile P s)"
proof (induction s arbitrary: i)
  case Nil
  then show ?case by simp
next
  case (Cons c s)
  then show ?case by (cases i) (auto split: if_splits)
qed

lemma trim_nonempty: "dropWhile is_space s \<noteq> [] \<Longrightarrow> trim s \<noteq> []"
proof -
  let ?u = "dropWhile is_space s"
  assume u: "?u \<noteq> []"
  then have "\<not> is_space (hd ?u)" "hd ?u \<in> set (rev ?u)"
    using dropWhile_ends [OF u] by auto
  then have "dropWhile is_space (rev ?u) \<noteq> []"
    by (auto simp: dropWhile_eq_Nil_conv)
  then show ?thesis by (simp add: trim_def)
qed

lemma trim_take_hd:
  assumes "trim (take i s) \<noteq> []"
  shows "trim s \<noteq> [] \<and> hd (trim s) = hd (trim (take i s))"
proof -
  have t: "dropWhile is_space (take i s) \<noteq> []"
    using assms by (metis dropWhile.simps(1) rev.simps(1) trim_def)
  then have h: "hd (dropWhile is_space (take i s)) = hd (dropWhile is_space s)"
    by (rule dropWhile_take_hd)
  have "set (take i s) \<subseteq> set s" by (rule set_take_subset)
  then have "dropWhile is_space s \<noteq> []"
    using t by (auto simp: dropWhile_eq_Nil_conv)
  then have n: "trim s \<noteq> []" by (rule trim_nonempty)
  show ?thesis
    using n h trim_hd [OF n] trim_hd [OF assms] by simp
qed

lemma wf_parse_line:
  assumes "CHR 0x0A \<notin> set line" "wf_kv kv"
  shows "wf_kv (parse_line line kv)"
proof (cases "take 1 (trim line) = ''#''")
  case True
  then show ?thesis using assms(2) by (simp add: parse_line_def)
next
  case False
  show ?thesis
  proof (cases "indexOf line CHR ''=''")
    case None
    then show ?thesis using assms(2) by (simp add: parse_line_def)
  next
    case (Some idx)
    let ?k = "trim (take idx line)"
    let ?v = "trim (drop (idx + 1) line)"
    have i: "CHR ''='' \<notin> set (take idx line)" using indexOf_Some [OF Some] by simp
    have v: "plain_val ?v"
      using assms(1) set_trim [of "drop (idx + 1) line"] set_drop_subset [of "idx + 1" line]
      by (auto simp: plain_val_def trim_idem)
    have k1: "trim ?k = ?k" by (rule trim_idem)
    have k2: "CHR ''='' \<notin> set ?k" using i set_trim [of "take idx line"] by auto
    have k3: "CHR 0x0A \<notin> set ?k"
      using assms(1) set_trim [of "take idx line"] set_take_subset [of idx line] by auto
    have k4: "take 1 ?k \<noteq> ''#''"
    proof (cases "?k = []")
      case True
      then show ?thesis by simp
    next
      case nonempty: False
      then have "trim line \<noteq> []" "hd (trim line) = hd ?k"
        using trim_take_hd [of idx line] by auto
      then show ?thesis
        using False nonempty by (cases "trim line"; cases ?k) auto
    qed
    show ?thesis
    proof (cases "?k = ''__proto__''")
      case True
      then show ?thesis
        using assms(2) False Some by (simp add: parse_line_def kv_set_def)
    next
      case False
      then have "key_ok ?k" using k1 k2 k3 k4 by (simp add: key_ok_def)
      then have "wf_kv (kv_set ?k ?v kv)" using assms(2) v by (simp add: wf_kv_set)
      then show ?thesis
        using assms(2) \<open>take 1 (trim line) \<noteq> ''#''\<close> Some by (simp add: parse_line_def)
    qed
  qed
qed

lemma wf_fold_parse:
  "list_all (\<lambda>l. CHR 0x0A \<notin> set l) ls \<Longrightarrow> wf_kv acc \<Longrightarrow> wf_kv (fold parse_line ls acc)"
  by (induction ls arbitrary: acc) (simp_all add: wf_parse_line)

lemma wf_parse_env: "wf_kv (parse_env content)"
proof -
  have "list_all (\<lambda>l. CHR 0x0A \<notin> set l) (filter (\<lambda>l. l \<noteq> []) (split_lines [] content))"
    using split_lines_sound [of "[]" _ content] by (auto simp: list_all_iff)
  moreover have "wf_kv []" by (simp add: wf_kv_def)
  ultimately show ?thesis
    unfolding parse_env_def by (rule wf_fold_parse)
qed

lemma env_lines_map: "env_lines kv = map env_line (entries kv)"
  by (simp add: env_lines_def env_line_def)

lemma good_rendered:
  assumes "key_ok k" "plain_val v"
  shows "good_line (env_line (k, v)) \<and> env_line (k, v) \<noteq> []"
proof -
  have cr: "is_space (CHR 0x0D)" by (simp add: is_space_def)
  have "last (k @ ''='' @ v) \<noteq> CHR 0x0D"
  proof (cases "v = []")
    case True
    then show ?thesis by simp
  next
    case False
    then have "\<not> is_space (last v)"
      using assms(2) trim_ends [of v] by (auto simp: plain_val_def)
    then show ?thesis using False cr by auto
  qed
  then show ?thesis
    using assms by (auto simp: good_line_def env_line_def key_ok_def plain_val_def)
qed

lemma distinct_entries: "distinct (map fst kv) \<Longrightarrow> distinct (map fst (entries kv))"
  by (auto simp: entries_def distinct_map inj_on_def)

lemma wf_entries: "wf_kv kv \<Longrightarrow> wf_kv (entries kv)"
  using set_entries [of kv] by (auto simp: wf_kv_def distinct_entries list_all_iff)

lemma map_of_entries: "distinct (map fst kv) \<Longrightarrow> map_of (entries kv) = map_of kv"
  using distinct_entries [of kv] set_entries [of kv] by (simp add: map_of_inject_set)

lemma entries_idem: "entries (entries kv) = entries kv"
proof -
  let ?P = "\<lambda>e. is_array_index (fst e)"
  let ?f = "\<lambda>e. index_val (fst e)"
  let ?a = "sort_key ?f (filter ?P kv)"
  let ?b = "filter (\<lambda>e. \<not> ?P e) kv"
  have 1: "filter ?P ?a = ?a" "filter ?P ?b = []" "filter (\<lambda>e. \<not> ?P e) ?a = []"
    "filter (\<lambda>e. \<not> ?P e) ?b = ?b"
    by (auto simp: filter_empty_conv filter_id_conv)
  have 2: "sort_key ?f ?a = ?a"
    by (simp add: sort_key_id_if_sorted)
  show ?thesis
    unfolding entries_def [of "sort_key ?f (filter ?P kv) @ ?b"]
    by (simp add: 1 2 entries_def)
qed

lemma map_of_filter_key: "P k \<Longrightarrow> map_of (filter (\<lambda>e. P (fst e)) es) k = map_of es k"
  by (induction es) auto

lemma parse_render:
  assumes "wf_kv kv"
  shows "parse_env (render_env kv) = filter (\<lambda>e. fst e \<noteq> []) (entries kv)"
proof -
  let ?es = "entries kv"
  have wf: "wf_kv ?es" using assms by (rule wf_entries)
  then have ok: "list_all (\<lambda>e. key_ok (fst e) \<and> plain_val (snd e)) ?es"
    and d: "distinct (map fst ?es)"
    by (simp_all add: wf_kv_def)
  have g: "list_all good_line (map env_line ?es)" "list_all (\<lambda>l. l \<noteq> []) (map env_line ?es)"
    using ok good_rendered by (auto simp: list_all_iff)
  have s: "filter (\<lambda>l. l \<noteq> []) (split_lines [] (render_env kv)) = map env_line ?es"
  proof (cases "?es = []")
    case True
    then show ?thesis by (simp add: render_env_def env_lines_map)
  next
    case False
    then have "split_lines [] (render_env kv) = map env_line ?es"
      using g(1) by (simp add: render_env_def env_lines_map split_join)
    then show ?thesis using g(2) by (simp add: filter_id_conv list_all_iff)
  qed
  show ?thesis
    unfolding parse_env_def s using fold_parse_rendered [OF ok d, of "[]"] by simp
qed

lemma map_of_parse_render:
  assumes "wf_kv kv" "k \<noteq> []"
  shows "map_of (parse_env (render_env kv)) k = map_of kv k"
proof -
  have "map_of (parse_env (render_env kv)) k = map_of (entries kv) k"
    using assms(2) map_of_filter_key [of "\<lambda>k. k \<noteq> []" k "entries kv"]
    by (simp add: parse_render [OF assms(1)])
  then show ?thesis
    using assms(1) by (simp add: map_of_entries wf_kv_def)
qed

lemma parse_env_skips:
  "parse_env content
     = fold parse_line
         (filter (\<lambda>l. l \<noteq> [] \<and> take 1 (trim l) \<noteq> ''#'') (split_lines [] content)) []"
proof -
  have "fold parse_line (filter (\<lambda>l. l \<noteq> []) ls) acc
      = fold parse_line (filter (\<lambda>l. l \<noteq> [] \<and> take 1 (trim l) \<noteq> ''#'') ls) acc" for ls acc
    by (induction ls arbitrary: acc) (auto simp: parse_line_def)
  then show ?thesis by (simp add: parse_env_def)
qed

lemma kv_set_triv: "map_of al k = Some v \<Longrightarrow> kv_set k v al = al"
  by (simp add: kv_set_def update_triv)

lemma env_content_after_write:
  assumes "writeEnvVar pr n v w = (Inr u, w1)"
  shows "env_content pr w1
           = (if envPath pr \<in> unreadable w then []
              else render_env (kv_set n v (parse_env (env_content pr w))))"
    and "envPath pr \<in> unreadable w \<Longrightarrow> env_content pr w = []"
proof -
  have f: "files w1 (envPath pr) = Some (render_env (kv_set n v (parse_env (env_content pr w))))"
    using assms by (rule writeEnvVar_ok)
  have "unreadable w1 = unreadable w"
    using assms by (auto simp: writeEnvVar_def Let_def writeFile_def mkdir_frame split: if_splits)
  then show "env_content pr w1
           = (if envPath pr \<in> unreadable w then []
              else render_env (kv_set n v (parse_env (env_content pr w))))"
    using f by (simp add: env_content_def readFile_def)
  show "envPath pr \<in> unreadable w \<Longrightarrow> env_content pr w = []"
    by (simp add: env_content_def readFile_def split: option.splits)
qed

lemmas env_eval = parse_env_def parse_line_def trim_def is_space_def kv_set_def render_env_def
  env_lines_def entries_def is_array_index_def digit_val_def

lemma parse_two_lines:
  "parse_env (''GOOGLE_API_KEY=a\<newline>B=1'')
     = [(''GOOGLE_API_KEY'', ''a''), (''B'', ''1'')]"
  by (simp add: env_eval)

lemma render_two_lines:
  "render_env (kv_set ''GOOGLE_API_KEY'' two_lines [])
     = ''GOOGLE_API_KEY=a\<newline>B=1''"
  "render_env (kv_set ''GOOGLE_API_KEY'' two_lines [(''GOOGLE_API_KEY'', ''a''), (''B'', ''1'')])
     = ''GOOGLE_API_KEY=a\<newline>B=1\<newline>B=1''"
  by (simp_all add: env_eval two_lines_def)

lemma parse_env_text:
  "parse_env env_text = [(''OPENAI_API_KEY'', ''sk-1''), (''OTHER'', ''x'')]"
  by (simp add: env_eval env_text_def)

lemma render_env_text:
  "render_env (kv_set ''DEEPSEEK_API_KEY'' ''sk-new''
      [(''OPENAI_API_KEY'', ''sk-1''), (''OTHER'', ''x'')])
     = ''OPENAI_API_KEY=sk-1\<newline>OTHER=x\<newline>DEEPSEEK_API_KEY=sk-new''"
  by (simp add: env_eval)

lemma parse_new_text:
  "parse_env (''OPENAI_API_KEY=sk-1\<newline>OTHER=x\<newline>DEEPSEEK_API_KEY=sk-new'')
     = [(''OPENAI_API_KEY'', ''sk-1''), (''OTHER'', ''x''), (''DEEPSEEK_API_KEY'', ''sk-new'')]"
  by (simp add: env_eval)

lemma plain_examples: "plain_key ''DEEPSEEK_API_KEY''" "plain_val ''sk-new''"
  by (simp_all add: plain_key_def key_ok_def plain_val_def trim_def is_space_def)

lemma writeEnvVar_world:
  "envPath pr \<notin> faulty w \<Longrightarrow>
   writeEnvVar pr n v w
     = (Inr (), w\<lparr>journal := journal w @ [Mkdir (path_join (homedir pr) ''.wrenai''),
                       WriteFile (envPath pr) (render_env (kv_set n v (parse_env (env_content pr w))))],
                  files := (files w)(envPath pr \<mapsto> render_env (kv_set n v (parse_env (env_content pr w))))\<rparr>)"
  by (simp add: writeEnvVar_def Let_def env_content_mkdir writeFile_def mkdir_frame)

lemma env_content_examples:
  "env_content proc0 world_empty = []" "env_content proc0 world_env = env_text"
  "envPath proc0 \<notin> faulty world_empty" "envPath proc0 \<notin> faulty world_env"
  by (simp_all add: env_content_def readFile_def world_empty_def world_env_def world_of_def paths0)

lemma project_file_migrated:
  "fst (readConfig proc0 world_project) = Inr [JObj llm_m1]
   \<and> new_calls world_project (snd (readConfig proc0 world_project))
        = [Mkdir ''/home/u/.wrenai'', WriteFile ''/home/u/.wrenai/config.yaml'' ''M1'',
           Unlink ''/srv/app/config.yaml'']"
proof -
  have c: "candidates proc0 = [''/home/u/.wrenai/config.yaml''] @ ''/srv/app/config.yaml''
      # [''/srv/app/../config.yaml'']"
    by (simp add: candidates0)
  have q: "list_all (\<lambda>q. isl (readFile q world_project)) [''/home/u/.wrenai/config.yaml'']"
    by (simp add: readFile_def world_project_def world_of_def)
  have r: "readFile ''/srv/app/config.yaml'' world_project = Inr ''M1''"
    by (simp add: readFile_def world_project_def world_of_def)
  have l: "loadAll proc0 ''M1'' = Some [JObj llm_m1]"
    by (simp add: proc0_def)
  have d: "DEFAULT_CONFIG_PATH proc0 = ''/srv/app/config.yaml''"
    by (simp add: path_defs proc0_def)
  have a: "\<not> access (homedirConfig proc0) world_project"
    "homedirDir proc0 \<notin> faulty world_project" "homedirConfig proc0 \<notin> faulty world_project"
    by (simp_all add: access_def paths0 world_project_def world_of_def)
  show ?thesis
    using migration_exactly_when [OF c q r l] a
    by (simp add: d migration_calls_def paths0)
qed

section \<open>Properties of ConfigService\<close>

text \<open>
  C6.  A document set without an entry of type \<open>llm\<close> is rejected by \<open>writeConfig\<close> with an
  error, and the filesystem, the journal of attempted calls included, is exactly what it was:
  neither the directory creation nor the file write precedes the check.
\<close>

theorem writeConfig_no_llm_untouched:
  "\<not> list_ex is_llm docs \<Longrightarrow> writeConfig pr docs w = (Inl NoLlmDoc, w)"
  by (simp add: writeConfig_def)

theorem writeConfig_no_llm_untouched_witness:
  "\<not> list_ex is_llm [JStr ''x'', JNull]
   \<and> writeConfig proc0 [JStr ''x'', JNull] world_m1 = (Inl NoLlmDoc, world_m1)"
  using writeConfig_no_llm_untouched [of "[JStr ''x'', JNull]" proc0 world_m1] by simp

section \<open>Properties of updateLLMConfig\<close>

text \<open>
  C8.  Let the update pass the sanitizing step and the configuration be read.  If the update
  does not specify \<open>active_model\<close> and the existing entry at position \<open>i\<close> is of type \<open>llm\<close>
  with a truthy (so non-empty) \<open>active_model\<close>, then the merged entry at position \<open>i\<close> has the
  same \<open>active_model\<close>, and whenever \<open>updateLLMConfig\<close> succeeds the user-level configuration
  file holds the serialization of exactly these merged documents.
\<close>

theorem update_retains_active_model:
  assumes "sanitize pr data w = (Inr inc, w1)"
    and "readConfig pr w1 = (Inr docs, w2)"
    and "data ''active_model'' = None"
    and "i < length docs" and "docs ! i = JObj d" and "is_llm (JObj d)"
    and "truthy (d ''active_model'')"
  shows "(\<exists>d'. new_docs inc docs ! i = JObj d' \<and> d' ''active_model'' = d ''active_model'')
       \<and> (\<forall>r w'. updateLLMConfig pr c data w = (Inr r, w') \<longrightarrow>
             files w' (homedirConfig pr) = Some (serialize pr (new_docs inc docs)))"
proof -
  have "inc ''active_model'' = None"
    using assms(1,3) sanitize_active_model by metis
  then have "\<exists>d'. merge_doc inc (JObj d) = JObj d' \<and> d' ''active_model'' = d ''active_model''"
    using assms(6,7) by (simp add: Let_def)
  then show ?thesis
    using assms(1,2,4,5) update_persists by (simp add: new_docs_nth)
qed

theorem update_retains_active_model_witness:
  "sanitize proc0 upd_provider world_m1 = (Inr upd_provider, world_m1)
   \<and> readConfig proc0 world_m1 = (Inr [JObj llm_m1], world_m1)
   \<and> upd_provider ''active_model'' = None
   \<and> llm_m1 ''active_model'' = Some (JStr ''m1'')
   \<and> (\<exists>d'. new_docs upd_provider [JObj llm_m1] ! 0 = JObj d'
            \<and> d' ''active_model'' = Some (JStr ''m1''))
   \<and> (\<exists>w'. updateLLMConfig proc0 admin upd_provider world_m1 = (Inr upd_provider, w')
            \<and> files w' (homedirConfig proc0)
                = Some (serialize proc0 (new_docs upd_provider [JObj llm_m1])))"
proof -
  have a: "upd_provider ''active_model'' = None" by (simp add: upd_provider_def)
  have b: "llm_m1 ''active_model'' = Some (JStr ''m1'')" by (simp add: llm_m1_def)
  have t: "truthy (llm_m1 ''active_model'')" by (simp add: b)
  have n: "(0::nat) < length [JObj llm_m1]" "[JObj llm_m1] ! 0 = JObj llm_m1" by simp_all
  from update_retains_active_model [OF sanitize_upd_provider readConfig_world_m1 a n llm_m1_is_llm t,
      of admin]
  show ?thesis
    using update_world_m1 by (auto simp: sanitize_upd_provider readConfig_world_m1 a b)
qed

text \<open>
  C10.  With \<open>persistKey\<close> equal to \<open>false\<close> the sanitized update has lost \<open>api_key\<close>,
  \<open>apiKey\<close> and also \<open>api_key_env\<close>, and nothing is written before the merge.  So every
  entry of the merged document set has the \<open>api_key_env\<close> of the existing entry at its
  position, an entry appended for lack of an \<open>llm\<close> entry has none, and a successful update
  persists exactly this document set.
\<close>

theorem nopersist_keeps_api_key_env:
  assumes "isAdmin c" and "data ''persistKey'' = Some (JBool False)"
  shows "(let inc = (strip_keys data)(''api_key_env'' := None)
          in sanitize pr data w = (Inr inc, w) \<and> inc ''api_key_env'' = None
           \<and> (\<forall>docs w2. readConfig pr w = (Inr docs, w2) \<longrightarrow>
                 map (field ''api_key_env'') (new_docs inc docs)
                   = map (field ''api_key_env'') docs @ (if list_ex is_llm docs then [] else [None])
               \<and> (\<forall>r w'. updateLLMConfig pr c data w = (Inr r, w') \<longrightarrow>
                     r = inc
                   \<and> files w' (homedirConfig pr) = Some (serialize pr (new_docs inc docs)))))"
proof -
  let ?inc = "(strip_keys data)(''api_key_env'' := None)"
  have s: "sanitize pr data w = (Inr ?inc, w)"
    using assms(2) by (rule sanitize_nopersist)
  have k: "?inc ''api_key_env'' = None" by simp
  have "r = ?inc \<and> files w' (homedirConfig pr) = Some (serialize pr (new_docs ?inc docs))"
    if "readConfig pr w = (Inr docs, w2)" "updateLLMConfig pr c data w = (Inr r, w')"
    for docs w2 r w'
    using update_persists [OF s that] .
  then show ?thesis
    unfolding Let_def using s k field_new_docs [of ?inc "''api_key_env''"] by blast
qed

theorem nopersist_keeps_api_key_env_witness:
  "isAdmin admin \<and> upd_nopersist ''persistKey'' = Some (JBool False)
   \<and> upd_nopersist ''api_key_env'' = Some (JStr ''MY_KEY'')
   \<and> readConfig proc0 world_m1 = (Inr [JObj llm_m1], world_m1)
   \<and> map (field ''api_key_env'')
        (new_docs ((strip_keys upd_nopersist)(''api_key_env'' := None)) [JObj llm_m1])
       = [Some (JStr ''OPENAI_API_KEY'')]
   \<and> \<not> isl (fst (updateLLMConfig proc0 admin upd_nopersist world_m1))
   \<and> files (snd (updateLLMConfig proc0 admin upd_nopersist world_m1)) (homedirConfig proc0)
       = Some (serialize proc0
           (new_docs ((strip_keys upd_nopersist)(''api_key_env'' := None)) [JObj llm_m1]))"
proof -
  let ?inc = "(strip_keys upd_nopersist)(''api_key_env'' := None)"
  obtain w' where u: "updateLLMConfig proc0 admin upd_nopersist world_m1 = (Inr ?inc, w')"
    using update_nopersist_m1 by blast
  have e: "upd_nopersist ''api_key_env'' = Some (JStr ''MY_KEY'')"
    by (simp add: upd_nopersist_def)
  have l: "list_ex is_llm [JObj llm_m1]" "field ''api_key_env'' (JObj llm_m1) = Some (JStr ''OPENAI_API_KEY'')"
    by (simp_all add: llm_m1_def)
  from nopersist_keeps_api_key_env [where c = admin and data = upd_nopersist and pr = proc0
      and w = world_m1, OF isAdmin_admin upd_nopersist_flag]
  show ?thesis
    unfolding Let_def using u e l isAdmin_admin upd_nopersist_flag readConfig_world_m1
    by simp
qed

text \<open>
  C2, as stated, fails: the raw key fields are deleted from the update only.  An existing
  \<open>llm\<close> entry that carries \<open>api_key\<close> keeps it through the merge, and the document written
  by an update with \<open>persistKey\<close> equal to \<open>false\<close> still has the field.
\<close>

theorem nopersist_raw_key_counterexample:
  "isAdmin admin \<and> upd_nopersist ''persistKey'' = Some (JBool False)
   \<and> readConfig proc0 world_legacy = (Inr [JObj llm_legacy], world_legacy)
   \<and> \<not> isl (fst (updateLLMConfig proc0 admin upd_nopersist world_legacy))
   \<and> files (snd (updateLLMConfig proc0 admin upd_nopersist world_legacy)) (homedirConfig proc0)
        = Some ''type: llm; api_key: sk-old; persistKey: false; ''
   \<and> map (field ''api_key'')
        (new_docs ((strip_keys upd_nopersist)(''api_key_env'' := None)) [JObj llm_legacy])
        = [Some (JStr ''sk-old'')]"
proof -
  let ?inc = "(strip_keys upd_nopersist)(''api_key_env'' := None)"
  obtain w' where u: "updateLLMConfig proc0 admin upd_nopersist world_legacy = (Inr ?inc, w')"
    using update_nopersist_legacy by blast
  have f: "files w' (homedirConfig proc0) = Some (serialize proc0 (new_docs ?inc [JObj llm_legacy]))"
    using update_persists [OF sanitize_upd_nopersist readConfig_world_legacy u]
    by simp
  have d: "map (field ''api_key'') (new_docs ?inc [JObj llm_legacy]) = [Some (JStr ''sk-old'')]"
    by (simp add: new_docs_def llm_legacy_def Let_def strip_keys_def upd_nopersist_def map_add_def)
  show ?thesis
    using u f d isAdmin_admin upd_nopersist_flag readConfig_world_legacy
    by (simp add: serialize_nopersist_legacy)
qed

text \<open>
  C2, amended.  With \<open>persistKey\<close> equal to \<open>false\<close> the sanitized update has neither
  \<open>api_key\<close> nor \<open>apiKey\<close>, the operation makes no write to the secrets file whatever its
  outcome, and in the merged document set every entry has exactly the \<open>api_key\<close> and
  \<open>apiKey\<close> of the existing entry at its position (an appended entry has none); a successful
  update persists exactly this document set.
\<close>

theorem nopersist_no_secret_write:
  assumes "isAdmin c" and "data ''persistKey'' = Some (JBool False)"
  shows "(let inc = (strip_keys data)(''api_key_env'' := None)
          in sanitize pr data w = (Inr inc, w)
           \<and> inc ''api_key'' = None \<and> inc ''apiKey'' = None
           \<and> \<not> writes_to (envPath pr) (new_calls w (snd (updateLLMConfig pr c data w)))
           \<and> (\<forall>docs w2. readConfig pr w = (Inr docs, w2) \<longrightarrow>
                 map (field ''api_key'') (new_docs inc docs)
                   = map (field ''api_key'') docs @ (if list_ex is_llm docs then [] else [None])
               \<and> map (field ''apiKey'') (new_docs inc docs)
                   = map (field ''apiKey'') docs @ (if list_ex is_llm docs then [] else [None])
               \<and> (\<forall>r w'. updateLLMConfig pr c data w = (Inr r, w') \<longrightarrow>
                     r = inc
                   \<and> files w' (homedirConfig pr) = Some (serialize pr (new_docs inc docs)))))"
proof -
  let ?inc = "(strip_keys data)(''api_key_env'' := None)"
  have s: "sanitize pr data w = (Inr ?inc, w)"
    using assms(2) by (rule sanitize_nopersist)
  have k: "?inc ''api_key'' = None" "?inc ''apiKey'' = None"
    by (simp_all add: strip_keys_def)
  have n: "\<not> writes_to (envPath pr) (new_calls w (snd (updateLLMConfig pr c data w)))"
    using update_grows_nopersist [where data = data, OF assms(2)] by (rule grows_no_env_write)
  have "r = ?inc \<and> files w' (homedirConfig pr) = Some (serialize pr (new_docs ?inc docs))"
    if "readConfig pr w = (Inr docs, w2)" "updateLLMConfig pr c data w = (Inr r, w')"
    for docs w2 r w'
    using update_persists [OF s that] .
  then show ?thesis
    unfolding Let_def
    using s k n field_new_docs [of ?inc "''api_key''"] field_new_docs [of ?inc "''apiKey''"]
    by blast
qed

theorem nopersist_no_secret_write_witness:
  "isAdmin admin \<and> upd_nopersist ''persistKey'' = Some (JBool False)
   \<and> upd_nopersist ''api_key'' = Some (JStr ''sk-new'')
   \<and> readConfig proc0 world_m1 = (Inr [JObj llm_m1], world_m1)
   \<and> \<not> writes_to (envPath proc0)
         (new_calls world_m1 (snd (updateLLMConfig proc0 admin upd_nopersist world_m1)))
   \<and> map (field ''api_key'')
        (new_docs ((strip_keys upd_nopersist)(''api_key_env'' := None)) [JObj llm_m1]) = [None]
   \<and> map (field ''apiKey'')
        (new_docs ((strip_keys upd_nopersist)(''api_key_env'' := None)) [JObj llm_m1]) = [None]
   \<and> \<not> isl (fst (updateLLMConfig proc0 admin upd_nopersist world_m1))
   \<and> files (snd (updateLLMConfig proc0 admin upd_nopersist world_m1)) (homedirConfig proc0)
       = Some (serialize proc0
           (new_docs ((strip_keys upd_nopersist)(''api_key_env'' := None)) [JObj llm_m1]))"
proof -
  let ?inc = "(strip_keys upd_nopersist)(''api_key_env'' := None)"
  obtain w' where u: "updateLLMConfig proc0 admin upd_nopersist world_m1 = (Inr ?inc, w')"
    using update_nopersist_m1 by blast
  have e: "upd_nopersist ''api_key'' = Some (JStr ''sk-new'')"
    by (simp add: upd_nopersist_def)
  have l: "list_ex is_llm [JObj llm_m1]" "field ''api_key'' (JObj llm_m1) = None"
    "field ''apiKey'' (JObj llm_m1) = None"
    by (simp_all add: llm_m1_def)
  from nopersist_no_secret_write [where c = admin and data = upd_nopersist and pr = proc0
      and w = world_m1, OF isAdmin_admin upd_nopersist_flag]
  show ?thesis
    unfolding Let_def using u e l isAdmin_admin upd_nopersist_flag readConfig_world_m1
    by simp
qed




section \<open>Properties of readConfig\<close>

text \<open>
  C4.  The migration is meant for the project-local file and never for the explicit override.
  The code compares the path that was read with \<open>DEFAULT_CONFIG_PATH\<close>, which is the override
  itself whenever \<open>PROJECT_CONFIG_PATH\<close> is set.  Here the process runs with the override
  \<open>/etc/wren.yaml\<close>, which is not the project-local \<open>config.yaml\<close>, the file is read as the
  first candidate, and \<open>readConfig\<close> returns its documents after it has created the user-level
  directory, copied the file there and deleted the override file.
\<close>

theorem override_file_migrated:
  "PROJECT_CONFIG_PATH proc_override = Some ''/etc/wren.yaml''
   \<and> path_join (cwd proc_override) ''config.yaml'' \<noteq> ''/etc/wren.yaml''
   \<and> hd (candidates proc_override) = ''/etc/wren.yaml''
   \<and> readFile ''/etc/wren.yaml'' world_override = Inr ''M1''
   \<and> fst (readConfig proc_override world_override) = Inr [JObj llm_m1]
   \<and> new_calls world_override (snd (readConfig proc_override world_override))
        = [Mkdir ''/home/u/.wrenai'', WriteFile ''/home/u/.wrenai/config.yaml'' ''M1'',
           Unlink ''/etc/wren.yaml'']
   \<and> files (snd (readConfig proc_override world_override)) ''/etc/wren.yaml'' = None
   \<and> files (snd (readConfig proc_override world_override)) ''/home/u/.wrenai/config.yaml''
        = Some ''M1''"
proof -
  have r: "readFile ''/etc/wren.yaml'' world_override = Inr ''M1''"
    by (simp add: readFile_def world_override_def world_of_def)
  have l: "loadAll proc_override ''M1'' = Some [JObj llm_m1]"
    by (simp add: proc_override_def proc0_def)
  have c: "candidates proc_override = [] @ ''/etc/wren.yaml'' #
      [''/home/u/.wrenai/config.yaml'', ''/etc/wren.yaml'', ''/srv/app/../config.yaml'']"
    by (simp add: paths_override)
  have rc: "readConfig proc_override world_override
      = (Inr [JObj llm_m1], migrate proc_override ''M1'' world_override)"
    using readConfig_first_readable [OF c _ r l] by (simp add: paths_override)
  have m: "migrate proc_override ''M1'' world_override
      = world_override\<lparr>journal := [Mkdir ''/home/u/.wrenai'',
            WriteFile ''/home/u/.wrenai/config.yaml'' ''M1'', Unlink ''/etc/wren.yaml''],
          files := [''/home/u/.wrenai/config.yaml'' \<mapsto> ''M1'']\<rparr>"
    by (simp add: migrate_def paths_override fs_defs world_override_def Let_def fun_upd_twist)
  show ?thesis
    using r by (simp add: rc m paths_override new_calls_def)
       (simp add: world_override_def world_of_def proc_override_def proc0_def path_join_def)
qed

section \<open>Properties of switchLLMNow\<close>




section \<open>Properties of maskSecrets\<close>




section \<open>Properties of testLLMConnection\<close>




section \<open>Properties of writeEnvVar\<close>

text \<open>
  C9, as stated, fails: the file has no quoting, so not every value comes back.  A value of
  two lines whose second line reads \<open>B=1\<close> is written as two lines; the file then maps the
  name to the first line only, and a second call with the same name and value appends the
  line \<open>B=1\<close> once more, so that calling twice does not give the content of calling once.
\<close>

theorem writeEnvVar_two_lines_counterexample:
  "files (snd (writeEnvVar proc0 ''GOOGLE_API_KEY'' two_lines world_empty)) (envPath proc0)
     = Some (''GOOGLE_API_KEY=a\<newline>B=1'')
   \<and> map_of (parse_env (''GOOGLE_API_KEY=a\<newline>B=1'')) ''GOOGLE_API_KEY'' = Some ''a''
   \<and> ''a'' \<noteq> two_lines
   \<and> files (snd (writeEnvVar proc0 ''GOOGLE_API_KEY'' two_lines
                 (snd (writeEnvVar proc0 ''GOOGLE_API_KEY'' two_lines world_empty))))
        (envPath proc0)
     = Some (''GOOGLE_API_KEY=a\<newline>B=1\<newline>B=1'')"
proof -
  let ?w1 = "snd (writeEnvVar proc0 ''GOOGLE_API_KEY'' two_lines world_empty)"
  have 1: "files ?w1 (envPath proc0) = Some (''GOOGLE_API_KEY=a\<newline>B=1'')"
    "envPath proc0 \<notin> faulty ?w1" "envPath proc0 \<notin> unreadable ?w1"
    by (simp_all add: writeEnvVar_world env_content_examples parse_env_empty render_two_lines)
       (simp_all add: world_empty_def world_of_def)
  then have c: "env_content proc0 ?w1 = ''GOOGLE_API_KEY=a\<newline>B=1''"
    by (simp add: env_content_def readFile_def)
  have 2: "files (snd (writeEnvVar proc0 ''GOOGLE_API_KEY'' two_lines ?w1)) (envPath proc0)
     = Some (''GOOGLE_API_KEY=a\<newline>B=1\<newline>B=1'')"
    using 1(2) by (simp add: writeEnvVar_world c parse_two_lines render_two_lines)
  show ?thesis
    using 1(1) 2 by (simp add: parse_two_lines) (simp add: two_lines_def)
qed

text \<open>
  C9, amended.  Let the name be non-empty, without white space at its ends, without \<open>=\<close> and
  line feed, not starting with \<open>#\<close> and not \<open>__proto__\<close>, and the value without white space
  at its ends and without line feed.  An absent or unreadable file counts as empty.  Then the
  content that \<open>writeEnvVar\<close> writes maps the name to the value, and every other non-empty key
  to what the old content mapped it to; lines that are empty or start with \<open>#\<close> after
  trimming play no part in parsing; and when no line of the old content has an empty key,
  writing the same name and value again gives the same content.
\<close>

theorem writeEnvVar_upsert:
  assumes "plain_key n" and "plain_val v"
  shows "(let old = env_content pr w;
              new = render_env (kv_set n v (parse_env old))
          in (\<forall>u w1. writeEnvVar pr n v w = (Inr u, w1) \<longrightarrow> files w1 (envPath pr) = Some new)
           \<and> map_of (parse_env new) n = Some v
           \<and> (\<forall>k. k \<noteq> n \<and> k \<noteq> [] \<longrightarrow> map_of (parse_env new) k = map_of (parse_env old) k)
           \<and> parse_env old
               = fold parse_line
                   (filter (\<lambda>l. l \<noteq> [] \<and> take 1 (trim l) \<noteq> ''#'') (split_lines [] old)) []
           \<and> ([] \<notin> fst ` set (parse_env old) \<longrightarrow>
                 render_env (kv_set n v (parse_env new)) = new
               \<and> (\<forall>u w1 u' w2. writeEnvVar pr n v w = (Inr u, w1)
                       \<and> writeEnvVar pr n v w1 = (Inr u', w2) \<longrightarrow>
                     files w2 (envPath pr) = files w1 (envPath pr))))"
proof -
  let ?old = "env_content pr w"
  let ?kv = "kv_set n v (parse_env ?old)"
  let ?new = "render_env ?kv"
  have n: "n \<noteq> []" "key_ok n" "n \<noteq> ''__proto__''"
    using assms(1) by (simp_all add: plain_key_def key_ok_def)
  have wf: "wf_kv ?kv"
    using wf_parse_env n(2) assms(2) by (rule wf_kv_set)
  have kv: "map_of ?kv = (map_of (parse_env ?old))(n \<mapsto> v)"
    using n(3) by (simp add: kv_set_def update_conv')
  have a: "\<forall>u w1. writeEnvVar pr n v w = (Inr u, w1) \<longrightarrow> files w1 (envPath pr) = Some ?new"
    using writeEnvVar_ok by blast
  have b: "map_of (parse_env ?new) n = Some v"
    using map_of_parse_render [OF wf n(1)] kv by simp
  have c: "\<forall>k. k \<noteq> n \<and> k \<noteq> [] \<longrightarrow> map_of (parse_env ?new) k = map_of (parse_env ?old) k"
    using map_of_parse_render [OF wf] kv by simp
  have d: "render_env (kv_set n v (parse_env ?new)) = ?new"
    if e: "[] \<notin> fst ` set (parse_env ?old)"
  proof -
    have "fst ` set ?kv = insert n (fst ` set (parse_env ?old))"
      using n(3) by (simp add: kv_set_def dom_update)
    then have "[] \<notin> fst ` set ?kv"
      using e n(1) by simp
    then have "\<forall>e \<in> set (entries ?kv). fst e \<noteq> []"
      unfolding set_entries by (metis imageI)
    then have p: "parse_env ?new = entries ?kv"
      by (simp add: parse_render [OF wf] filter_id_conv)
    have "map_of (entries ?kv) n = Some v"
      using wf kv by (simp add: map_of_entries wf_kv_def)
    then have t: "kv_set n v (entries ?kv) = entries ?kv"
      by (rule kv_set_triv)
    have "render_env (kv_set n v (parse_env ?new)) = render_env (kv_set n v (entries ?kv))"
      by (simp only: p)
    also have "\<dots> = render_env (entries ?kv)"
      by (simp only: t)
    also have "\<dots> = ?new"
      by (simp add: render_env_def env_lines_map entries_idem)
    finally show ?thesis .
  qed
  have f: "files w2 (envPath pr) = files w1 (envPath pr)"
    if e: "[] \<notin> fst ` set (parse_env ?old)"
      and 1: "writeEnvVar pr n v w = (Inr u, w1)" and 2: "writeEnvVar pr n v w1 = (Inr u', w2)"
    for u w1 u' w2
  proof -
    have f1: "files w1 (envPath pr) = Some ?new" using 1 by (rule writeEnvVar_ok)
    have f2: "files w2 (envPath pr)
        = Some (render_env (kv_set n v (parse_env (env_content pr w1))))"
      using 2 by (rule writeEnvVar_ok)
    show ?thesis
    proof (cases "envPath pr \<in> unreadable w")
      case True
      then have "env_content pr w1 = []" "env_content pr w = []"
        using env_content_after_write [OF 1] by simp_all
      then show ?thesis using f1 f2 by simp
    next
      case False
      then have "env_content pr w1 = ?new"
        using env_content_after_write(1) [OF 1] by simp
      then show ?thesis using f1 f2 d [OF e] by simp
    qed
  qed
  show ?thesis
    unfolding Let_def using a b c d f parse_env_skips [of ?old] by blast
qed

theorem writeEnvVar_upsert_witness:
  "plain_key ''DEEPSEEK_API_KEY'' \<and> plain_val ''sk-new''
   \<and> parse_env env_text = [(''OPENAI_API_KEY'', ''sk-1''), (''OTHER'', ''x'')]
   \<and> [] \<notin> fst ` set (parse_env env_text)
   \<and> fst (writeEnvVar proc0 ''DEEPSEEK_API_KEY'' ''sk-new'' world_env) = Inr ()
   \<and> files (snd (writeEnvVar proc0 ''DEEPSEEK_API_KEY'' ''sk-new'' world_env)) (envPath proc0)
        = Some ''OPENAI_API_KEY=sk-1\<newline>OTHER=x\<newline>DEEPSEEK_API_KEY=sk-new''
   \<and> map_of (parse_env ''OPENAI_API_KEY=sk-1\<newline>OTHER=x\<newline>DEEPSEEK_API_KEY=sk-new'')
        ''DEEPSEEK_API_KEY'' = Some ''sk-new''
   \<and> map_of (parse_env ''OPENAI_API_KEY=sk-1\<newline>OTHER=x\<newline>DEEPSEEK_API_KEY=sk-new'')
        ''OPENAI_API_KEY'' = Some ''sk-1''
   \<and> fst (writeEnvVar proc0 ''DEEPSEEK_API_KEY'' ''sk-new''
             (snd (writeEnvVar proc0 ''DEEPSEEK_API_KEY'' ''sk-new'' world_env))) = Inr ()
   \<and> files (snd (writeEnvVar proc0 ''DEEPSEEK_API_KEY'' ''sk-new''
                 (snd (writeEnvVar proc0 ''DEEPSEEK_API_KEY'' ''sk-new'' world_env))))
        (envPath proc0)
      = files (snd (writeEnvVar proc0 ''DEEPSEEK_API_KEY'' ''sk-new'' world_env)) (envPath proc0)"
proof -
  let ?w1 = "snd (writeEnvVar proc0 ''DEEPSEEK_API_KEY'' ''sk-new'' world_env)"
  let ?w2 = "snd (writeEnvVar proc0 ''DEEPSEEK_API_KEY'' ''sk-new'' ?w1)"
  let ?new = "''OPENAI_API_KEY=sk-1\<newline>OTHER=x\<newline>DEEPSEEK_API_KEY=sk-new''"
  have r: "render_env (kv_set ''DEEPSEEK_API_KEY'' ''sk-new'' (parse_env (env_content proc0 world_env)))
             = ?new"
    by (simp add: env_content_examples parse_env_text render_env_text)
  have 1: "writeEnvVar proc0 ''DEEPSEEK_API_KEY'' ''sk-new'' world_env = (Inr (), ?w1)"
    by (simp add: writeEnvVar_world env_content_examples)
  have "envPath proc0 \<notin> faulty ?w1"
    by (simp add: writeEnvVar_world env_content_examples)
  then have 2: "writeEnvVar proc0 ''DEEPSEEK_API_KEY'' ''sk-new'' ?w1 = (Inr (), ?w2)"
    by (simp add: writeEnvVar_world)
  have e: "[] \<notin> fst ` set (parse_env (env_content proc0 world_env))"
    by (simp add: env_content_examples parse_env_text)
  note t = writeEnvVar_upsert [OF plain_examples, of proc0 world_env, unfolded Let_def r]
  have a: "files ?w1 (envPath proc0) = Some ?new"
    using t 1 by blast
  have b: "map_of (parse_env ?new) ''DEEPSEEK_API_KEY'' = Some ''sk-new''"
    using t by blast
  have "map_of (parse_env ?new) ''OPENAI_API_KEY''
          = map_of (parse_env (env_content proc0 world_env)) ''OPENAI_API_KEY''"
    using t by auto
  then have c: "map_of (parse_env ?new) ''OPENAI_API_KEY'' = Some ''sk-1''"
    by (simp add: env_content_examples parse_env_text)
  have d: "files ?w2 (envPath proc0) = files ?w1 (envPath proc0)"
    using t e 1 2 by blast
  have f: "fst (writeEnvVar proc0 ''DEEPSEEK_API_KEY'' ''sk-new'' world_env) = Inr ()"
    "fst (writeEnvVar proc0 ''DEEPSEEK_API_KEY'' ''sk-new'' ?w1) = Inr ()"
    using 1 2 by (metis fst_conv)+
  show ?thesis
    using a b c d f plain_examples
    by (simp add: parse_env_text)
qed

end
